theory Spec2Isabelle
  imports Complex_Main
begin

section \<open>Errors raised by the Python code\<close>

datatype py_error = IndexError | ValueError | TypeError | InvalidArgumentError

section \<open>Return-to-go: \<open>discount_cumsum\<close> (experiment.py, lines 20-25)\<close>

text \<open>
  The loop \<open>for t in reversed(range(x.shape[0]-1))\<close> writes one slot of the output array per
  iteration, reading the slot to its right. The array is a list updated by index; the
  arithmetic is kept abstract (any type with \<open>0\<close>, \<open>+\<close> and \<open>*\<close>), so nothing depends on laws
  that floating point does not have.
\<close>

fun discount_cumsum_loop :: "'a::{zero,plus,times} list \<Rightarrow> 'a \<Rightarrow> nat list \<Rightarrow> 'a list \<Rightarrow> 'a list" where
  "discount_cumsum_loop x gamma [] dc = dc"
| "discount_cumsum_loop x gamma (t # ts) dc =
     discount_cumsum_loop x gamma ts (dc[t := x ! t + gamma * dc ! (t + 1)])"

text \<open>
  \<open>discount_cumsum[-1] = x[-1]\<close> raises IndexError on an empty array; otherwise index \<open>-1\<close>
  is the last slot.
\<close>

definition discount_cumsum :: "'a::{zero,plus,times} list \<Rightarrow> 'a \<Rightarrow> py_error + 'a list" where
  "discount_cumsum x gamma =
     (if x = [] then Inl IndexError
      else Inr (discount_cumsum_loop x gamma (rev [0 ..< length x - 1])
                  ((replicate (length x) 0)[length x - 1 := x ! (length x - 1)])))"

section \<open>Loading a trajectory (experiment.py, lines 88-99)\<close>

record path =
  observations :: "real list list"
  actions :: "real list list"
  rewards :: "real list"
  dones :: "bool list"
  rtg :: "real list"

text \<open>
  Delayed mode: \<open>path['rewards'][-1] = path['rewards'].sum()\<close>, then
  \<open>path['rewards'][:-1] = 0.\<close>. The first statement raises IndexError on an empty array.
\<close>

definition delay_rewards :: "real list \<Rightarrow> py_error + real list" where
  "delay_rewards rs =
     (if rs = [] then Inl IndexError
      else (let rs1 = rs[length rs - 1 := sum_list rs]
            in Inr (replicate (length rs1 - 1) 0 @ drop (length rs1 - 1) rs1)))"

text \<open>
  One iteration of the loading loop, for the fields the derived data depends on: the
  optional delayed-reward transform, then \<open>path['rtg'] = discount_cumsum(path['rewards'], gamma=1.)\<close>.
\<close>

definition load_path :: "string \<Rightarrow> path \<Rightarrow> py_error + path" where
  "load_path mode p =
     (case (if mode = ''delayed'' then delay_rewards (rewards p) else Inr (rewards p)) of
        Inl e \<Rightarrow> Inl e
      | Inr rs \<Rightarrow>
          (case discount_cumsum rs 1 of
             Inl e \<Rightarrow> Inl e
           | Inr g \<Rightarrow> Inr (p\<lparr>rewards := rs, rtg := g\<rparr>)))"

section \<open>Trajectory selection (experiment.py, lines 87-133)\<close>

text \<open>
  \<open>traj_lens\<close> and \<open>traj_total_return\<close> are filled by the loading loop, one entry per
  trajectory: \<open>len(path['observations'])\<close> and \<open>path['rewards'].sum()\<close>.
\<close>

definition traj_lens_of :: "path list \<Rightarrow> nat list" where
  "traj_lens_of trajectories = map (\<lambda>p. length (observations p)) trajectories"

definition traj_total_return_of :: "path list \<Rightarrow> real list" where
  "traj_total_return_of trajectories = map (\<lambda>p. sum_list (rewards p)) trajectories"

text \<open>Python's \<open>int()\<close> on a float truncates towards zero.\<close>

definition py_int :: "real \<Rightarrow> int" where
  "py_int x = (if 0 \<le> x then \<lfloor>x\<rfloor> else \<lceil>x\<rceil>)"

text \<open>
  \<open>np.argsort\<close>: the indices of the array in ascending order of their values. The order
  among equal values depends on the sorting algorithm numpy picks; here it is the stable
  one.
\<close>

definition argsort :: "real list \<Rightarrow> nat list" where
  "argsort xs = sort_key (\<lambda>i. xs ! i) [0 ..< length xs]"

text \<open>A slice \<open>xs[-k:]\<close>: for \<open>k = 0\<close> it is the whole list, otherwise the last \<open>k\<close> entries.\<close>

definition slice_last :: "nat \<Rightarrow> 'a list \<Rightarrow> 'a list" where
  "slice_last k xs = drop (if k = 0 then 0 else length xs - k) xs"

text \<open>
  The \<open>while\<close> loop of lines 128-131 on the state \<open>(timesteps, num_trajectories, ind)\<close>.
\<close>

function select_loop :: "nat list \<Rightarrow> nat list \<Rightarrow> int \<Rightarrow> int \<times> nat \<times> int \<Rightarrow> int \<times> nat \<times> int" where
  "select_loop traj_lens sorted_return_inds num_timesteps (timesteps, num_trajectories, ind) =
     (if ind \<ge> 0 \<and>
         timesteps + int (traj_lens ! (sorted_return_inds ! nat ind)) \<le> num_timesteps
      then select_loop traj_lens sorted_return_inds num_timesteps
             (timesteps + int (traj_lens ! (sorted_return_inds ! nat ind)),
              num_trajectories + 1, ind - 1)
      else (timesteps, num_trajectories, ind))"
  by pat_completeness auto
termination
  by (relation "measure (\<lambda>(traj_lens, sorted_return_inds, num_timesteps, timesteps, num_trajectories, ind). nat (ind + 1))") auto

text \<open>
  Lines 123-133. The result is the clipped \<open>sorted_return_inds\<close> together with
  \<open>num_trajectories\<close>. \<open>sorted_return_inds[-1]\<close> raises IndexError when there is no
  trajectory.
\<close>

definition select_trajectories :: "real \<Rightarrow> path list \<Rightarrow> py_error + (nat list \<times> nat)" where
  "select_trajectories pct_traj trajectories =
     (let traj_lens = traj_lens_of trajectories;
          traj_total_return = traj_total_return_of trajectories;
          num_timesteps = max (py_int (pct_traj * real (sum_list traj_lens))) 1;
          sorted_return_inds = argsort traj_total_return
      in if sorted_return_inds = [] then Inl IndexError
         else (case select_loop traj_lens sorted_return_inds num_timesteps
                      (int (traj_lens ! (sorted_return_inds ! (length sorted_return_inds - 1))),
                       1, int (length trajectories) - 2) of
                 (timesteps, num_trajectories, ind) \<Rightarrow>
                   Inr (slice_last num_trajectories sorted_return_inds, num_trajectories)))"

text \<open>The timestep budget of line 123.\<close>

definition budget :: "real \<Rightarrow> path list \<Rightarrow> int" where
  "budget pct_traj trajectories =
     max (py_int (pct_traj * real (sum_list (traj_lens_of trajectories)))) 1"

text \<open>The loop invariant of the selection loop.\<close>

definition select_inv :: "nat list \<Rightarrow> nat list \<Rightarrow> int \<Rightarrow> int \<times> nat \<times> int \<Rightarrow> bool" where
  "select_inv traj_lens inds B st =
     (case st of (ts, k, ind) \<Rightarrow>
        int k + ind = int (length inds) - 1 \<and> 1 \<le> k \<and> k \<le> length inds \<and>
        ts = int (sum_list (map (\<lambda>i. traj_lens ! i) (drop (length inds - k) inds))) \<and>
        (k = 1 \<or> ts \<le> B))"

section \<open>Example data\<close>

text \<open>
  Two trajectories of length 5, one with return 10 and one with return 5.
\<close>

definition traj_A :: path where
  "traj_A = \<lparr>observations = [[0], [0], [0], [0], [0]], actions = [[0], [0], [0], [0], [0]],
             rewards = [2, 2, 2, 2, 2], dones = [False, False, False, False, True], rtg = [10, 8, 6, 4, 2]\<rparr>"

definition traj_B :: path where
  "traj_B = \<lparr>observations = [[1], [1], [1], [1], [1]], actions = [[0], [0], [0], [0], [0]],
             rewards = [1, 1, 1, 1, 1], dones = [False, False, False, False, True], rtg = [5, 4, 3, 2, 1]\<rparr>"

section \<open>Batch sampling: \<open>get_batch\<close> (experiment.py, lines 141-235)\<close>

text \<open>Sequencing of computations that may raise: the first error wins.\<close>

definition and_then :: "'e + 'a \<Rightarrow> ('a \<Rightarrow> 'e + 'b) \<Rightarrow> 'e + 'b" where
  "and_then m f = (case m of Inl e \<Rightarrow> Inl e | Inr v \<Rightarrow> f v)"

fun sequence :: "('e + 'a) list \<Rightarrow> 'e + 'a list" where
  "sequence [] = Inr []"
| "sequence (m # ms) = and_then m (\<lambda>v. and_then (sequence ms) (\<lambda>vs. Inr (v # vs)))"

text \<open>
  The variables of \<open>experiment\<close> that the closures \<open>get_batch\<close> and \<open>eval_ep_parallel\<close> read.
  \<open>sorted_return_inds\<close> is the clipped index list, whose length is \<open>num_trajectories\<close>.
  Floats are modelled as reals.
\<close>

record closure =
  cl_trajectories :: "path list"
  cl_sorted_return_inds :: "nat list"
  cl_state_dim :: nat
  cl_act_dim :: nat
  cl_state_mean :: "real list"
  cl_state_std :: "real list"
  cl_scale :: real

text \<open>
  \<open>random.randint(a, b)\<close> returns each integer of \<open>[a, b]\<close> with the same probability and
  raises ValueError when the range is empty. The distribution is represented by the list
  of its equally likely outcomes. A call is a function of the raw output \<open>u\<close> of the
  generator and of the two arguments: it returns the outcome at position
  \<open>u mod (b - a + 1)\<close> of the list, so that every outcome is returned for one residue of the
  raw output.
\<close>

definition randint_outcomes :: "int \<Rightarrow> int \<Rightarrow> int list" where
  "randint_outcomes a b = [a .. b]"

definition randint :: "nat \<Rightarrow> int \<Rightarrow> int \<Rightarrow> py_error + int" where
  "randint u a b =
     (if randint_outcomes a b = [] then Inl ValueError
      else Inr (randint_outcomes a b ! (u mod length (randint_outcomes a b))))"

text \<open>Indexing a list: IndexError out of range.\<close>

definition py_index :: "'a list \<Rightarrow> nat \<Rightarrow> py_error + 'a" where
  "py_index xs i = (if i < length xs then Inr (xs ! i) else Inl IndexError)"

text \<open>Indexing an array with an array of indices, \<open>arr[t_steps]\<close>.\<close>

definition np_take :: "'a list \<Rightarrow> nat list \<Rightarrow> py_error + 'a list" where
  "np_take arr idx =
     (if \<forall>t \<in> set idx. t < length arr then Inr (map (\<lambda>t. arr ! t) idx) else Inl IndexError)"

text \<open>
  Broadcasting a one-dimensional value to length \<open>n\<close>: the lengths agree, or the value has
  length one and is repeated; otherwise ValueError.
\<close>

definition broadcast_to :: "nat \<Rightarrow> 'a list \<Rightarrow> py_error + 'a list" where
  "broadcast_to n v =
     (if length v = n then Inr v
      else if length v = 1 then Inr (replicate n (v ! 0))
      else Inl ValueError)"

text \<open>
  The slice assignment \<open>row[-k:] = vals\<close>. The slice starts at \<open>len(row) - k\<close> (at 0 when
  \<open>k = 0\<close> or \<open>k > len(row)\<close>) and runs to the end of the row.
\<close>

definition assign_last :: "nat \<Rightarrow> 'a list \<Rightarrow> 'a list \<Rightarrow> py_error + 'a list" where
  "assign_last k vals row =
     (let start = (if k = 0 then 0 else length row - k)
      in and_then (broadcast_to (length row - start) vals) (\<lambda>vs. Inr (take start row @ vs)))"

text \<open>The same for a row of vectors of size \<open>n\<close>, \<open>arr[i,-k:,:] = vals\<close>.\<close>

definition assign_last_vec :: "nat \<Rightarrow> nat \<Rightarrow> 'a list list \<Rightarrow> 'a list list \<Rightarrow> py_error + 'a list list" where
  "assign_last_vec n k vals row =
     and_then (sequence (map (broadcast_to n) vals)) (\<lambda>vs. assign_last k vs row)"

text \<open>
  \<open>tf.keras.utils.pad_sequences(seqs, maxlen, value=v, padding='pre')\<close> on one sequence:
  an empty sequence leaves the row at \<open>v\<close>; otherwise the sequence is truncated to its last
  \<open>maxlen\<close> entries and written to the end of the row.
\<close>

definition pad_sequence :: "nat \<Rightarrow> int \<Rightarrow> int list \<Rightarrow> py_error + int list" where
  "pad_sequence maxlen v s =
     (if s = [] then Inr (replicate maxlen v)
      else (let trunc = slice_last maxlen s
            in assign_last (length trunc) trunc (replicate maxlen v)))"

text \<open>
  The normalisation statistics of lines 103-106: \<open>np.mean(states, axis=0)\<close> and
  \<open>np.std(states, axis=0) + 1e-6\<close> over the observations of all trajectories.
\<close>

definition all_states :: "path list \<Rightarrow> real list list" where
  "all_states trajectories = concat (map observations trajectories)"

definition state_mean_of :: "nat \<Rightarrow> path list \<Rightarrow> real list" where
  "state_mean_of state_dim trajectories =
     map (\<lambda>k. sum_list (map (\<lambda>v. v ! k) (all_states trajectories)) /
              real (length (all_states trajectories))) [0 ..< state_dim]"

definition state_std_of :: "nat \<Rightarrow> path list \<Rightarrow> real list" where
  "state_std_of state_dim trajectories =
     map (\<lambda>k. sqrt (sum_list (map (\<lambda>v. (v ! k - state_mean_of state_dim trajectories ! k)\<^sup>2)
                              (all_states trajectories)) /
                    real (length (all_states trajectories))) + 1 / 1000000) [0 ..< state_dim]"

text \<open>One row of each output array, before normalisation and padding of the timesteps.\<close>

record row =
  row_s :: "real list list"
  row_a :: "real list list"
  row_r :: "real list"
  row_d :: "real list"
  row_rtg :: "real list"
  row_mask :: "bool list"

text \<open>
  The body of the loop of lines 189-198 for one row: the window is copied into the last
  \<open>seq_len\<close> slots of the pre-allocated rows (zeros for \<open>s\<close>, \<open>r\<close>, \<open>rtg\<close>, \<open>-10\<close> for \<open>a\<close>,
  \<open>2\<close> for \<open>d\<close>, \<open>False\<close> for \<open>mask\<close>).
\<close>

definition fill_row :: "closure \<Rightarrow> nat \<Rightarrow> path \<Rightarrow> nat list \<Rightarrow> nat \<Rightarrow> py_error + row" where
  "fill_row c max_len traj t_steps seq_len =
     and_then (np_take (observations traj) t_steps) (\<lambda>obs.
     and_then (assign_last_vec (cl_state_dim c) seq_len obs
                 (replicate max_len (replicate (cl_state_dim c) 0))) (\<lambda>s.
     and_then (np_take (actions traj) t_steps) (\<lambda>acts.
     and_then (assign_last_vec (cl_act_dim c) seq_len acts
                 (replicate max_len (replicate (cl_act_dim c) (- 10)))) (\<lambda>a.
     and_then (np_take (rewards traj) t_steps) (\<lambda>rs.
     and_then (assign_last seq_len rs (replicate max_len 0)) (\<lambda>r.
     and_then (np_take (dones traj) t_steps) (\<lambda>ds.
     and_then (assign_last seq_len (map of_bool ds) (replicate max_len 2)) (\<lambda>d.
     and_then (np_take (rtg traj) t_steps) (\<lambda>gs.
     and_then (assign_last seq_len (map (\<lambda>g. g / cl_scale c) gs) (replicate max_len 0)) (\<lambda>g.
     and_then (assign_last seq_len (replicate seq_len True) (replicate max_len False)) (\<lambda>m.
     Inr \<lparr>row_s = s, row_a = a, row_r = r, row_d = d, row_rtg = g, row_mask = m\<rparr>)))))))))))"

text \<open>
  \<open>s -= state_mean; s /= state_std\<close> on one state vector; the statistics are broadcast
  along the last axis.
\<close>

definition normalize_state :: "real list \<Rightarrow> real list \<Rightarrow> real list \<Rightarrow> real list" where
  "normalize_state mean std v = map (\<lambda>(x, m, sd). (x - m) / sd) (zip v (zip mean std))"

text \<open>The seven arrays returned by \<open>get_batch\<close>.\<close>

record batch =
  out_s :: "real list list list"
  out_a :: "real list list list"
  out_r :: "real list list list"
  out_d :: "real list list list"
  out_rtg :: "real list list list"
  out_timesteps :: "int list list"
  out_mask :: "bool list list"

text \<open>\<open>np.expand_dims(x, axis=-1)\<close> on a two-dimensional array.\<close>

definition expand_dims :: "'a list list \<Rightarrow> 'a list list list" where
  "expand_dims x = map (map (\<lambda>v. [v])) x"

text \<open>
  \<open>get_batch\<close>. The random draws are arguments: \<open>batch_source_indices i\<close> is the \<open>i\<close>-th
  entry of the array returned by \<open>np.random.choice\<close>, \<open>start_draw i\<close> the raw output of the
  generator in the \<open>i\<close>-th call of \<open>random.randint(0, batch_len - 1)\<close>. The values that
  these calls return lie in \<open>[0, batch_len - 1]\<close>, so the start indices are natural numbers.
  The loop over the rows writes row \<open>i\<close> of each pre-allocated array only, so it is a map
  over the rows.
\<close>

definition get_batch ::
  "closure \<Rightarrow> (nat \<Rightarrow> nat) \<Rightarrow> (nat \<Rightarrow> nat) \<Rightarrow> nat \<Rightarrow> nat \<Rightarrow> py_error + batch" where
  "get_batch c batch_source_indices start_draw batch_size max_len =
     and_then (sequence (map (\<lambda>i.
         and_then (py_index (cl_sorted_return_inds c) (batch_source_indices i))
           (py_index (cl_trajectories c))) [0 ..< batch_size])) (\<lambda>batch_sources.
     let batch_lens = map (\<lambda>traj. length (rewards traj)) batch_sources in
     and_then (sequence (map (\<lambda>(i, batch_len).
         randint (start_draw i) 0 (int batch_len - 1))
           (zip [0 ..< batch_size] batch_lens))) (\<lambda>draws.
     let start_indices = map nat draws;
         end_indices = map (\<lambda>(x, y). min (x + max_len) y) (zip start_indices batch_lens);
         seq_lens = map (\<lambda>(start_idx, end_idx). end_idx - start_idx) (zip start_indices end_indices);
         timesteps = map (\<lambda>(start_idx, end_idx). [start_idx ..< end_idx]) (zip start_indices end_indices)
     in
     and_then (sequence (map (\<lambda>(traj, t_steps, seq_len). fill_row c max_len traj t_steps seq_len)
                 (zip batch_sources (zip timesteps seq_lens)))) (\<lambda>rows.
     and_then (broadcast_to (cl_state_dim c) (cl_state_mean c)) (\<lambda>mean.
     and_then (broadcast_to (cl_state_dim c) (cl_state_std c)) (\<lambda>std.
     and_then (sequence (map (\<lambda>t_steps. pad_sequence max_len (- 1) (map int t_steps)) timesteps))
       (\<lambda>padded.
     Inr \<lparr>out_s = map (\<lambda>rw. map (normalize_state mean std) (row_s rw)) rows,
          out_a = map row_a rows,
          out_r = expand_dims (map row_r rows),
          out_d = expand_dims (map row_d rows),
          out_rtg = expand_dims (map row_rtg rows),
          out_timesteps = map (map (\<lambda>t. t + 1)) padded,
          out_mask = map row_mask rows\<rparr>))))))"

text \<open>
  Notions used to state the properties of \<open>get_batch\<close>: the trajectory drawn for row \<open>i\<close>;
  trajectories whose arrays all have the length of \<open>rewards\<close> and whose vectors have the
  dimensions of the environment; index draws that \<open>np.random.choice\<close> can return (an index of
  \<open>sorted_return_inds\<close> whose trajectory is not empty: the probability \<open>p_sample\<close> of an
  empty trajectory is zero); draws that the two random calls can return, the raw output of
  each call of \<open>random.randint\<close> being the start offset itself; and the value of each
  output row written as a pad prefix followed by the window.
\<close>

definition sampled_traj :: "closure \<Rightarrow> (nat \<Rightarrow> nat) \<Rightarrow> nat \<Rightarrow> path" where
  "sampled_traj c batch_source_indices i =
     cl_trajectories c ! (cl_sorted_return_inds c ! batch_source_indices i)"

definition wf_traj :: "closure \<Rightarrow> path \<Rightarrow> bool" where
  "wf_traj c p =
     (length (observations p) = length (rewards p) \<and>
      length (actions p) = length (rewards p) \<and>
      length (dones p) = length (rewards p) \<and>
      length (rtg p) = length (rewards p) \<and>
      (\<forall>v \<in> set (observations p). length v = cl_state_dim c) \<and>
      (\<forall>v \<in> set (actions p). length v = cl_act_dim c))"

definition wf_closure :: "closure \<Rightarrow> bool" where
  "wf_closure c =
     ((\<forall>i \<in> set (cl_sorted_return_inds c).
          i < length (cl_trajectories c) \<and> wf_traj c (cl_trajectories c ! i)) \<and>
      length (cl_state_mean c) = cl_state_dim c \<and>
      length (cl_state_std c) = cl_state_dim c \<and>
      (\<forall>sd \<in> set (cl_state_std c). 0 < sd))"

definition valid_sources :: "closure \<Rightarrow> (nat \<Rightarrow> nat) \<Rightarrow> nat \<Rightarrow> bool" where
  "valid_sources c batch_source_indices batch_size =
     (\<forall>i \<in> set [0 ..< batch_size].
        batch_source_indices i < length (cl_sorted_return_inds c) \<and>
        rewards (sampled_traj c batch_source_indices i) \<noteq> [])"

definition valid_draws :: "closure \<Rightarrow> (nat \<Rightarrow> nat) \<Rightarrow> (nat \<Rightarrow> nat) \<Rightarrow> nat \<Rightarrow> bool" where
  "valid_draws c batch_source_indices start_draw batch_size =
     (\<forall>i \<in> set [0 ..< batch_size].
        batch_source_indices i < length (cl_sorted_return_inds c) \<and>
        int (start_draw i) \<in>
          set (randint_outcomes 0 (int (length (rewards (sampled_traj c batch_source_indices i))) - 1)))"

definition window_len :: "nat \<Rightarrow> nat \<Rightarrow> nat \<Rightarrow> nat" where
  "window_len max_len start batch_len = min (start + max_len) batch_len - start"

definition window_row :: "closure \<Rightarrow> nat \<Rightarrow> path \<Rightarrow> nat \<Rightarrow> row" where
  "window_row c max_len traj start =
     (let n = window_len max_len start (length (rewards traj));
          ts = [start ..< start + n];
          pad = max_len - n
      in \<lparr>row_s = replicate pad (replicate (cl_state_dim c) 0) @ map (\<lambda>t. observations traj ! t) ts,
          row_a = replicate pad (replicate (cl_act_dim c) (- 10)) @ map (\<lambda>t. actions traj ! t) ts,
          row_r = replicate pad 0 @ map (\<lambda>t. rewards traj ! t) ts,
          row_d = replicate pad 2 @ map (\<lambda>t. of_bool (dones traj ! t)) ts,
          row_rtg = replicate pad 0 @ map (\<lambda>t. rtg traj ! t / cl_scale c) ts,
          row_mask = replicate pad False @ replicate n True\<rparr>)"

definition padded_timesteps :: "nat \<Rightarrow> nat \<Rightarrow> nat \<Rightarrow> int list" where
  "padded_timesteps max_len start batch_len =
     replicate (max_len - window_len max_len start batch_len) 0 @
     map (\<lambda>t. int t + 1) [start ..< start + window_len max_len start batch_len]"

definition window_batch ::
  "closure \<Rightarrow> (nat \<Rightarrow> nat) \<Rightarrow> (nat \<Rightarrow> nat) \<Rightarrow> nat \<Rightarrow> nat \<Rightarrow> batch" where
  "window_batch c batch_source_indices start_draw batch_size max_len =
     (let rows = map (\<lambda>i. window_row c max_len (sampled_traj c batch_source_indices i) (start_draw i))
                   [0 ..< batch_size]
      in \<lparr>out_s = map (\<lambda>rw. map (normalize_state (cl_state_mean c) (cl_state_std c)) (row_s rw)) rows,
          out_a = map row_a rows,
          out_r = expand_dims (map row_r rows),
          out_d = expand_dims (map row_d rows),
          out_rtg = expand_dims (map row_rtg rows),
          out_timesteps = map (\<lambda>i. padded_timesteps max_len (start_draw i)
                                   (length (rewards (sampled_traj c batch_source_indices i))))
                            [0 ..< batch_size],
          out_mask = map row_mask rows\<rparr>)"

section \<open>Example data for batch sampling\<close>

definition traj_C :: path where
  "traj_C = \<lparr>observations = [[1], [3], [1], [3]], actions = [[4], [5], [6], [7]],
             rewards = [1, 2, 3, 4], dones = [False, False, False, True], rtg = [10, 9, 7, 4]\<rparr>"

definition example_closure :: closure where
  "example_closure = \<lparr>cl_trajectories = [traj_C], cl_sorted_return_inds = [0],
      cl_state_dim = 1, cl_act_dim = 1, cl_state_mean = [2],
      cl_state_std = [1000001 / 1000000], cl_scale = 10\<rparr>"

definition first_traj :: "nat \<Rightarrow> nat" where
  "first_traj i = 0"

definition start_at_3 :: "nat \<Rightarrow> nat" where
  "start_at_3 i = 3"

definition raw_output_7 :: "nat \<Rightarrow> nat" where
  "raw_output_7 i = 7"

definition example_batch :: batch where
  "example_batch = \<lparr>out_s = [[[- 2000000 / 1000001], [1000000 / 1000001]]],
      out_a = [[[- 10], [7]]], out_r = [[[0], [4]]], out_d = [[[2], [1]]],
      out_rtg = [[[0], [2 / 5]]], out_timesteps = [[0, 4]], out_mask = [[False, True]]\<rparr>"

definition traj_Z :: path where
  "traj_Z = \<lparr>observations = [[0], [0], [0], [0]], actions = [[4], [5], [6], [7]],
             rewards = [1, 2, 3, 4], dones = [False, False, False, True], rtg = [10, 9, 7, 4]\<rparr>"

definition zero_closure :: closure where
  "zero_closure = \<lparr>cl_trajectories = [traj_Z], cl_sorted_return_inds = [0],
      cl_state_dim = 1, cl_act_dim = 1, cl_state_mean = [0],
      cl_state_std = [1 / 1000000], cl_scale = 10\<rparr>"

definition zero_batch :: batch where
  "zero_batch = \<lparr>out_s = [[[0], [0]]],
      out_a = [[[- 10], [7]]], out_r = [[[0], [4]]], out_d = [[[2], [1]]],
      out_rtg = [[[0], [2 / 5]]], out_timesteps = [[0, 4]], out_mask = [[False, True]]\<rparr>"

section \<open>Parallel evaluation: \<open>eval_ep_parallel\<close> (experiment.py, lines 238-312)\<close>

text \<open>
  The result of \<open>reset\<close> and \<open>step\<close> of a wrapped environment: the observation, the reward
  and whether \<open>step_type == StepType.LAST\<close>.
\<close>

record time_step =
  ts_observation :: "real list"
  ts_reward :: real
  ts_last :: bool

text \<open>
  What \<open>eval_ep_parallel\<close> reads from its surroundings. The environments and the model are
  external: an environment is a state of type \<open>'e\<close> with \<open>reset\<close> and \<open>step\<close>, the \<open>i\<close>-th
  environment is created by \<open>make_env i\<close>, and \<open>get_batch_action\<close> maps the normalised
  states, the actions, the rewards, the return targets and the timesteps to one action per
  episode.
\<close>

record 'e evaluator =
  ev_num_eval_episodes :: nat
  ev_max_ep_len :: nat
  ev_state_dim :: nat
  ev_act_dim :: nat
  ev_state_mean :: "real list"
  ev_state_std :: "real list"
  ev_scale :: real
  ev_mode :: string
  ev_make_env :: "nat \<Rightarrow> 'e"
  ev_reset :: "'e \<Rightarrow> 'e \<times> time_step"
  ev_step :: "'e \<Rightarrow> real list \<Rightarrow> 'e \<times> time_step"
  ev_get_batch_action ::
    "real list list list \<Rightarrow> real list list list \<Rightarrow> real list list \<Rightarrow> real list list \<Rightarrow>
     real list \<Rightarrow> real list list"

text \<open>
  The variables of the evaluation loop. The first index of every tensor is the episode;
  \<open>dones\<close> has shape \<open>(episodes, 1)\<close>; \<open>timesteps\<close> is one-dimensional.
\<close>

record 'e rollout =
  ro_envs :: "'e list"
  ro_dones :: "bool list list"
  ro_states :: "real list list list"
  ro_actions :: "real list list list"
  ro_rewards :: "real list list"
  ro_target_returns :: "real list list"
  ro_timesteps :: "real list"
  ro_episode_return :: "real list"
  ro_episode_length :: "int list"

text \<open>
  Lines 241-262: the state before the first iteration. In mode \<open>noise\<close> line 258 calls
  \<open>tf.random.normal\<close> with a keyword it does not have and raises TypeError. Without
  episodes \<open>tf.convert_to_tensor([])\<close> has shape \<open>(0,)\<close>, so the operands of \<open>tf.concat\<close> at
  line 259 have ranks 3 and 2 and it raises InvalidArgumentError, as it does when an
  observation does not have \<open>state_dim\<close> entries.
\<close>

definition eval_init :: "'e evaluator \<Rightarrow> real \<Rightarrow> py_error + 'e rollout" where
  "eval_init P target_rew =
     (let n = ev_num_eval_episodes P;
          resets = map (\<lambda>i. ev_reset P (ev_make_env P i)) [0 ..< n];
          new_states = map (\<lambda>r. ts_observation (snd r)) resets
      in if ev_mode P = ''noise'' then Inl TypeError
         else if n = 0 then Inl InvalidArgumentError
         else if \<exists>s \<in> set new_states. length s \<noteq> ev_state_dim P then Inl InvalidArgumentError
         else Inr \<lparr>ro_envs = map fst resets,
                   ro_dones = replicate n [False],
                   ro_states = map (\<lambda>s. [s]) new_states,
                   ro_actions = replicate n [],
                   ro_rewards = replicate n [],
                   ro_target_returns = replicate n [1 * target_rew / ev_scale P],
                   ro_timesteps = [1],
                   ro_episode_return = replicate n 0,
                   ro_episode_length = replicate n 0\<rparr>)"

text \<open>\<open>done = tf.reduce_all(tf.reduce_any(dones, axis=-1))\<close>.\<close>

definition all_done :: "'e rollout \<Rightarrow> bool" where
  "all_done st = (\<forall>row \<in> set (ro_dones st). \<exists>d \<in> set row. d)"

text \<open>
  Lines 264-300: the body of the loop for the loop variable \<open>t\<close>. A tensor operation whose
  operands disagree in shape raises InvalidArgumentError.
\<close>

definition eval_step :: "'e evaluator \<Rightarrow> nat \<Rightarrow> 'e rollout \<Rightarrow> py_error + 'e rollout" where
  "eval_step P t st =
     (let n = ev_num_eval_episodes P;
          actions = map (\<lambda>row. row @ [replicate (ev_act_dim P) 0]) (ro_actions st);
          rewards = map (\<lambda>row. row @ [0]) (ro_rewards st)
      in
      and_then (broadcast_to (ev_state_dim P) (ev_state_mean P)) (\<lambda>mean.
      and_then (broadcast_to (ev_state_dim P) (ev_state_std P)) (\<lambda>std.
      let new_actions = ev_get_batch_action P
                          (map (map (normalize_state mean std)) (ro_states st))
                          actions rewards (ro_target_returns st) (ro_timesteps st)
      in
      if length new_actions \<noteq> n \<or> (\<exists>a \<in> set new_actions. length a \<noteq> ev_act_dim P)
      then Inl InvalidArgumentError
      else
      let actions = map (\<lambda>(row, a). butlast row @ [a]) (zip actions new_actions);
          ts_s = map (\<lambda>(env, action). ev_step P env action) (zip (ro_envs st) new_actions);
          new_states = map (\<lambda>r. ts_observation (snd r)) ts_s;
          new_rewards = map (\<lambda>r. ts_reward (snd r)) ts_s;
          new_dones = map (\<lambda>r. ts_last (snd r)) ts_s
      in
      if \<exists>s \<in> set new_states. length s \<noteq> ev_state_dim P then Inl InvalidArgumentError
      else
      let new_dones = map (\<lambda>(row, d). last row \<or> d) (zip (ro_dones st) new_dones);
          dones = map (\<lambda>(row, d). butlast row @ [d]) (zip (ro_dones st) new_dones);
          states = map (\<lambda>(row, s). row @ [s]) (zip (ro_states st) new_states);
          rewards = map (\<lambda>(row, r). butlast row @ [r]) (zip rewards new_rewards);
          pred_return =
            (if ev_mode P \<noteq> ''delayed''
             then map (\<lambda>(row, r). last row - r / ev_scale P) (zip (ro_target_returns st) new_rewards)
             else map last (ro_target_returns st));
          target_returns = map (\<lambda>(row, p). row @ [p]) (zip (ro_target_returns st) pred_return);
          timesteps = ro_timesteps st @ [real (t + 2)];
          episode_return = map (\<lambda>(ret, d, r). ret + (if d then 0 else r))
                             (zip (ro_episode_return st) (zip new_dones new_rewards));
          episode_length = map (\<lambda>(len, d). len + (if d then 0 else 1))
                             (zip (ro_episode_length st) new_dones)
      in Inr \<lparr>ro_envs = map fst ts_s, ro_dones = dones, ro_states = states,
               ro_actions = actions, ro_rewards = rewards, ro_target_returns = target_returns,
               ro_timesteps = timesteps, ro_episode_return = episode_return,
               ro_episode_length = episode_length\<rparr>)))"

text \<open>
  \<open>for t in range(max_ep_len): ...; if done: break\<close>, as a recursion over the remaining
  values of \<open>t\<close>.
\<close>

fun eval_loop :: "'e evaluator \<Rightarrow> nat list \<Rightarrow> 'e rollout \<Rightarrow> py_error + 'e rollout" where
  "eval_loop P [] st = Inr st"
| "eval_loop P (t # ts) st =
     and_then (eval_step P t st) (\<lambda>st'. if all_done st' then Inr st' else eval_loop P ts st')"

text \<open>The four statistics of the returned dictionary.\<close>

record eval_result =
  return_mean :: real
  return_std :: real
  length_mean :: real
  length_std :: real

definition reduce_mean :: "real list \<Rightarrow> real" where
  "reduce_mean xs = sum_list xs / real (length xs)"

definition reduce_std :: "real list \<Rightarrow> real" where
  "reduce_std xs = sqrt (reduce_mean (map (\<lambda>x. (x - reduce_mean xs)\<^sup>2) xs))"

text \<open>The state in which the loop of \<open>eval_ep_parallel\<close> ends.\<close>

definition eval_final :: "'e evaluator \<Rightarrow> real \<Rightarrow> py_error + 'e rollout" where
  "eval_final P target_rew =
     and_then (eval_init P target_rew) (eval_loop P [0 ..< ev_max_ep_len P])"

definition eval_ep_parallel :: "'e evaluator \<Rightarrow> real \<Rightarrow> py_error + eval_result" where
  "eval_ep_parallel P target_rew =
     and_then (eval_final P target_rew) (\<lambda>st.
       Inr \<lparr>return_mean = reduce_mean (ro_episode_return st),
            return_std = reduce_std (ro_episode_return st),
            length_mean = reduce_mean (map real_of_int (ro_episode_length st)),
            length_std = reduce_std (map real_of_int (ro_episode_length st))\<rparr>)"

text \<open>
  The states after each executed iteration, in order: the same recursion as \<open>eval_loop\<close>,
  keeping every state instead of the last one.
\<close>

fun eval_trace :: "'e evaluator \<Rightarrow> nat list \<Rightarrow> 'e rollout \<Rightarrow> py_error + 'e rollout list" where
  "eval_trace P [] st = Inr []"
| "eval_trace P (t # ts) st =
     and_then (eval_step P t st) (\<lambda>st'.
       if all_done st' then Inr [st']
       else and_then (eval_trace P ts st') (\<lambda>tr. Inr (st' # tr)))"

text \<open>
  Notions used to state the properties of the evaluation: the contract of the external
  model and environments (at least one episode, one action of size \<open>act_dim\<close> per episode,
  observations of size \<open>state_dim\<close>, a mode in which the initialisation does not raise); the
  shapes that the loop keeps; the done flag of an episode; and the time steps that the
  environments return in the iteration that starts in a given state.
\<close>

definition evaluator_ok :: "'e evaluator \<Rightarrow> bool" where
  "evaluator_ok P =
     (ev_mode P \<noteq> ''noise'' \<and>
      0 < ev_num_eval_episodes P \<and>
      length (ev_state_mean P) = ev_state_dim P \<and>
      length (ev_state_std P) = ev_state_dim P \<and>
      (\<forall>s a r g ts.
         length (ev_get_batch_action P s a r g ts) = ev_num_eval_episodes P \<and>
         (\<forall>x \<in> set (ev_get_batch_action P s a r g ts). length x = ev_act_dim P)) \<and>
      (\<forall>e. length (ts_observation (snd (ev_reset P e))) = ev_state_dim P) \<and>
      (\<forall>e a. length (ts_observation (snd (ev_step P e a))) = ev_state_dim P))"

definition rollout_inv :: "'e evaluator \<Rightarrow> 'e rollout \<Rightarrow> bool" where
  "rollout_inv P st =
     (length (ro_envs st) = ev_num_eval_episodes P \<and>
      length (ro_dones st) = ev_num_eval_episodes P \<and>
      (\<forall>row \<in> set (ro_dones st). length row = 1) \<and>
      length (ro_states st) = ev_num_eval_episodes P \<and>
      length (ro_actions st) = ev_num_eval_episodes P \<and>
      length (ro_rewards st) = ev_num_eval_episodes P \<and>
      length (ro_target_returns st) = ev_num_eval_episodes P \<and>
      length (ro_episode_return st) = ev_num_eval_episodes P \<and>
      length (ro_episode_length st) = ev_num_eval_episodes P)"

definition episode_done :: "'e rollout \<Rightarrow> nat \<Rightarrow> bool" where
  "episode_done st e = (\<exists>d \<in> set (ro_dones st ! e). d)"

definition step_time_steps :: "'e evaluator \<Rightarrow> 'e rollout \<Rightarrow> time_step list" where
  "step_time_steps P st =
     (let new_actions = ev_get_batch_action P
            (map (map (normalize_state (ev_state_mean P) (ev_state_std P))) (ro_states st))
            (map (\<lambda>row. row @ [replicate (ev_act_dim P) 0]) (ro_actions st))
            (map (\<lambda>row. row @ [0]) (ro_rewards st))
            (ro_target_returns st) (ro_timesteps st)
      in map (\<lambda>(env, action). snd (ev_step P env action)) (zip (ro_envs st) new_actions))"

text \<open>
  The call of \<open>get_batch_action\<close> at lines 269-275 in the iteration that starts in the state
  \<open>st\<close>, as a function of the sequence passed as its \<open>timesteps\<close> argument: one call returns
  the actions of all episodes.
\<close>

definition model_answer :: "'e evaluator \<Rightarrow> 'e rollout \<Rightarrow> real list \<Rightarrow> real list list" where
  "model_answer P st timesteps =
     ev_get_batch_action P
       (map (map (normalize_state (ev_state_mean P) (ev_state_std P))) (ro_states st))
       (map (\<lambda>row. row @ [replicate (ev_act_dim P) 0]) (ro_actions st))
       (map (\<lambda>row. row @ [0]) (ro_rewards st))
       (ro_target_returns st) timesteps"

section \<open>Example data for the evaluation\<close>

text \<open>
  An environment that counts its steps: every step has reward 1 and the step that reaches
  the horizon is the last one of the episode; a step taken after the last one starts a new
  episode, as the wrapper does. Environment 0 has horizon 3, the others horizon 4. The
  model always answers with the action \<open>[0]\<close> for every episode.
\<close>

definition counting_reset :: "nat \<times> nat \<Rightarrow> (nat \<times> nat) \<times> time_step" where
  "counting_reset env =
     ((fst env, 0), \<lparr>ts_observation = [0], ts_reward = 0, ts_last = False\<rparr>)"

definition counting_step :: "nat \<times> nat \<Rightarrow> real list \<Rightarrow> (nat \<times> nat) \<times> time_step" where
  "counting_step env action =
     (if snd env = fst env then counting_reset env
      else ((fst env, snd env + 1),
            \<lparr>ts_observation = [real (snd env + 1)], ts_reward = 1,
             ts_last = (snd env + 1 = fst env)\<rparr>))"

definition zero_policy ::
  "nat \<Rightarrow> real list list list \<Rightarrow> real list list list \<Rightarrow> real list list \<Rightarrow> real list list \<Rightarrow>
   real list \<Rightarrow> real list list" where
  "zero_policy n s a r g ts = replicate n [0]"

definition example_evaluator :: "nat \<Rightarrow> (nat \<times> nat) evaluator" where
  "example_evaluator n =
     \<lparr>ev_num_eval_episodes = n, ev_max_ep_len = 5, ev_state_dim = 1, ev_act_dim = 1,
      ev_state_mean = [0], ev_state_std = [1], ev_scale = 1000, ev_mode = ''normal'',
      ev_make_env = (\<lambda>i. (if i = 0 then 3 else 4, 0)),
      ev_reset = counting_reset, ev_step = counting_step,
      ev_get_batch_action = zero_policy n\<rparr>"

text \<open>The state in which the example run with one episode ends.\<close>

definition example_final :: "(nat \<times> nat) rollout" where
  "example_final =
     \<lparr>ro_envs = [(3, 3)], ro_dones = [[True]],
      ro_states = [[[0], [1], [2], [3]]], ro_actions = [[[0], [0], [0]]],
      ro_rewards = [[1, 1, 1]],
      ro_target_returns = [[18 / 5, 3599 / 1000, 1799 / 500, 3597 / 1000]],
      ro_timesteps = [1, 2, 3, 4], ro_episode_return = [2],
      ro_episode_length = [2]\<rparr>"

text \<open>
  The run with two episodes: the state before the first iteration and the states after
  each of the four iterations. Episode 0 is done after the third iteration; in the fourth
  its environment starts a new episode and returns a time step that is not the last one.
\<close>

definition example_init2 :: "(nat \<times> nat) rollout" where
  "example_init2 =
     \<lparr>ro_envs = [(3, 0), (4, 0)], ro_dones = [[False], [False]],
      ro_states = [[[0]], [[0]]], ro_actions = [[], []],
      ro_rewards = [[], []], ro_target_returns = [[18 / 5], [18 / 5]],
      ro_timesteps = [1], ro_episode_return = [0, 0],
      ro_episode_length = [0, 0]\<rparr>"

definition example_trace2 :: "(nat \<times> nat) rollout list" where
  "example_trace2 =
     [\<lparr>ro_envs = [(3, 1), (4, 1)], ro_dones = [[False], [False]],
       ro_states = [[[0], [1]], [[0], [1]]], ro_actions = [[[0]], [[0]]],
       ro_rewards = [[1], [1]],
       ro_target_returns = [[18 / 5, 3599 / 1000], [18 / 5, 3599 / 1000]],
       ro_timesteps = [1, 2], ro_episode_return = [1, 1],
       ro_episode_length = [1, 1]\<rparr>,
      \<lparr>ro_envs = [(3, 2), (4, 2)], ro_dones = [[False], [False]],
       ro_states = [[[0], [1], [2]], [[0], [1], [2]]],
       ro_actions = [[[0], [0]], [[0], [0]]],
       ro_rewards = [[1, 1], [1, 1]],
       ro_target_returns =
         [[18 / 5, 3599 / 1000, 1799 / 500], [18 / 5, 3599 / 1000, 1799 / 500]],
       ro_timesteps = [1, 2, 3], ro_episode_return = [2, 2],
       ro_episode_length = [2, 2]\<rparr>,
      \<lparr>ro_envs = [(3, 3), (4, 3)], ro_dones = [[True], [False]],
       ro_states = [[[0], [1], [2], [3]], [[0], [1], [2], [3]]],
       ro_actions = [[[0], [0], [0]], [[0], [0], [0]]],
       ro_rewards = [[1, 1, 1], [1, 1, 1]],
       ro_target_returns =
         [[18 / 5, 3599 / 1000, 1799 / 500, 3597 / 1000],
          [18 / 5, 3599 / 1000, 1799 / 500, 3597 / 1000]],
       ro_timesteps = [1, 2, 3, 4], ro_episode_return = [2, 3],
       ro_episode_length = [2, 3]\<rparr>,
      \<lparr>ro_envs = [(3, 0), (4, 4)], ro_dones = [[True], [True]],
       ro_states = [[[0], [1], [2], [3], [0]], [[0], [1], [2], [3], [4]]],
       ro_actions = [[[0], [0], [0], [0]], [[0], [0], [0], [0]]],
       ro_rewards = [[1, 1, 1, 0], [1, 1, 1, 1]],
       ro_target_returns =
         [[18 / 5, 3599 / 1000, 1799 / 500, 3597 / 1000, 3597 / 1000],
          [18 / 5, 3599 / 1000, 1799 / 500, 3597 / 1000, 899 / 250]],
       ro_timesteps = [1, 2, 3, 4, 5], ro_episode_return = [2, 3],
       ro_episode_length = [2, 3]\<rparr>]"

text \<open>
  A model whose action is the sum of the time steps passed to it, so that the recorded
  actions show the sequence it was called with, and the state in which the run of two
  episodes with this model ends.
\<close>

definition clock_policy ::
  "nat \<Rightarrow> real list list list \<Rightarrow> real list list list \<Rightarrow> real list list \<Rightarrow> real list list \<Rightarrow>
   real list \<Rightarrow> real list list" where
  "clock_policy n s a r g ts = replicate n [sum_list ts]"

definition clock_evaluator :: "nat \<Rightarrow> (nat \<times> nat) evaluator" where
  "clock_evaluator n = (example_evaluator n)\<lparr>ev_get_batch_action := clock_policy n\<rparr>"

definition clock_final :: "(nat \<times> nat) rollout" where
  "clock_final =
     \<lparr>ro_envs = [(3, 0), (4, 4)], ro_dones = [[True], [True]],
      ro_states = [[[0], [1], [2], [3], [0]], [[0], [1], [2], [3], [4]]],
      ro_actions = [[[1], [3], [6], [10]], [[1], [3], [6], [10]]],
      ro_rewards = [[1, 1, 1, 0], [1, 1, 1, 1]],
      ro_target_returns =
        [[18 / 5, 3599 / 1000, 1799 / 500, 3597 / 1000, 3597 / 1000],
         [18 / 5, 3599 / 1000, 1799 / 500, 3597 / 1000, 899 / 250]],
      ro_timesteps = [1, 2, 3, 4, 5], ro_episode_return = [2, 3],
      ro_episode_length = [2, 3]\<rparr>"

section \<open>Properties of \<open>discount_cumsum\<close>\<close>

lemma length_discount_cumsum_loop:
  "length (discount_cumsum_loop x gamma ts dc) = length dc"
  by (induction ts arbitrary: dc) simp_all

lemma discount_cumsum_loop_inv:
  "k < length dc \<Longrightarrow>
   (\<forall>i. k \<le> i \<longrightarrow> i < length dc \<longrightarrow> discount_cumsum_loop x gamma (rev [0 ..< k]) dc ! i = dc ! i) \<and>
   (\<forall>t < k. discount_cumsum_loop x gamma (rev [0 ..< k]) dc ! t =
        x ! t + gamma * discount_cumsum_loop x gamma (rev [0 ..< k]) dc ! (t + 1))"
proof (induction k arbitrary: dc)
  case 0
  then show ?case by simp
next
  case (Suc k)
  let ?dc = "dc[k := x ! k + gamma * dc ! (k + 1)]"
  let ?r = "discount_cumsum_loop x gamma (rev [0 ..< k]) ?dc"
  have k: "k < length ?dc" using Suc.prems by simp
  note ih = Suc.IH [OF k]
  have unf: "discount_cumsum_loop x gamma (rev [0 ..< Suc k]) dc = ?r" by simp
  have keep: "\<And>i. k \<le> i \<Longrightarrow> i < length dc \<Longrightarrow> ?r ! i = ?dc ! i"
    using ih by simp
  have a: "\<forall>i. Suc k \<le> i \<longrightarrow> i < length dc \<longrightarrow> ?r ! i = dc ! i"
    using keep by simp
  have rk: "?r ! k = x ! k + gamma * dc ! (k + 1)"
    using keep [of k] Suc.prems by simp
  have rk1: "?r ! (k + 1) = dc ! (k + 1)"
    using keep [of "k + 1"] Suc.prems by simp
  have b: "\<forall>t < Suc k. ?r ! t = x ! t + gamma * ?r ! (t + 1)"
  proof (intro allI impI)
    fix t assume "t < Suc k"
    then consider "t < k" | "t = k" by linarith
    then show "?r ! t = x ! t + gamma * ?r ! (t + 1)"
    proof cases
      case 1 then show ?thesis using ih by blast
    next
      case 2 then show ?thesis using rk rk1 by simp
    qed
  qed
  show ?case unfolding unf using a b by blast
qed

lemma discount_cumsum_recurrence:
  fixes x :: "'a::{zero,plus,times} list"
  assumes "x \<noteq> []"
  shows "\<exists>g. discount_cumsum x gamma = Inr g \<and> length g = length x \<and>
             g ! (length x - 1) = x ! (length x - 1) \<and>
             (\<forall>t. t + 1 < length x \<longrightarrow> g ! t = x ! t + gamma * g ! (t + 1))"
proof -
  let ?L = "length x"
  let ?dc = "(replicate ?L (0::'a))[?L - 1 := x ! (?L - 1)]"
  let ?g = "discount_cumsum_loop x gamma (rev [0 ..< ?L - 1]) ?dc"
  have L: "0 < ?L" using assms by simp
  have k: "?L - 1 < length ?dc" using L by simp
  note inv = discount_cumsum_loop_inv [OF k, of x gamma]
  have 1: "discount_cumsum x gamma = Inr ?g" using assms by (simp add: discount_cumsum_def)
  have 2: "length ?g = ?L" by (simp add: length_discount_cumsum_loop)
  have "?g ! (?L - 1) = ?dc ! (?L - 1)" using inv L by simp
  then have 3: "?g ! (?L - 1) = x ! (?L - 1)" using L by simp
  have 4: "\<forall>t. t + 1 < ?L \<longrightarrow> ?g ! t = x ! t + gamma * ?g ! (t + 1)"
    using inv by (simp add: less_diff_conv)
  show ?thesis using 1 2 3 4 by blast
qed

lemma discount_cumsum_empty: "discount_cumsum [] gamma = Inl IndexError"
  by (simp add: discount_cumsum_def)

text \<open>
  Claim C4. For a reward sequence of length \<open>L \<ge> 1\<close> the return-to-go series has length
  \<open>L\<close>, its last entry is the last reward, and every earlier entry is
  \<open>reward[t] + gamma * return_to_go[t+1]\<close>; for \<open>gamma = 1\<close> and rewards \<open>[1,2,3]\<close> it is
  \<open>[6,5,3]\<close>. (On the empty sequence the code raises IndexError, see
  \<open>discount_cumsum_empty\<close>.)
\<close>

theorem discount_cumsum_return_to_go:
  fixes x :: "'a::{zero,plus,times} list"
  shows "(x \<noteq> [] \<longrightarrow>
           (\<exists>g. discount_cumsum x gamma = Inr g \<and> length g = length x \<and>
                g ! (length x - 1) = x ! (length x - 1) \<and>
                (\<forall>t. t + 1 < length x \<longrightarrow> g ! t = x ! t + gamma * g ! (t + 1)))) \<and>
         discount_cumsum [1, 2, 3 :: real] 1 = Inr [6, 5, 3]"
proof
  show "x \<noteq> [] \<longrightarrow>
           (\<exists>g. discount_cumsum x gamma = Inr g \<and> length g = length x \<and>
                g ! (length x - 1) = x ! (length x - 1) \<and>
                (\<forall>t. t + 1 < length x \<longrightarrow> g ! t = x ! t + gamma * g ! (t + 1)))"
    using discount_cumsum_recurrence [of x gamma] by blast
  show "discount_cumsum [1, 2, 3 :: real] 1 = Inr [6, 5, 3]"
    by (simp add: discount_cumsum_def)
qed

theorem discount_cumsum_return_to_go_witness:
  "[4, 0, 2 :: int] \<noteq> [] \<and>
   (\<exists>g. discount_cumsum [4, 0, 2 :: int] 3 = Inr g \<and> length g = 3 \<and> g ! 2 = 2 \<and>
        g ! 1 = 0 + 3 * g ! 2 \<and> g ! 0 = 4 + 3 * g ! 1)"
proof -
  have ne: "[4, 0, 2 :: int] \<noteq> []" by simp
  from discount_cumsum_return_to_go [of "[4, 0, 2 :: int]" 3] ne
  obtain g where g: "discount_cumsum [4, 0, 2 :: int] 3 = Inr g"
    and len: "length g = length [4, 0, 2 :: int]"
    and lst: "g ! (length [4, 0, 2 :: int] - 1) = [4, 0, 2 :: int] ! (length [4, 0, 2 :: int] - 1)"
    and rec: "\<forall>t. t + 1 < length [4, 0, 2 :: int] \<longrightarrow> g ! t = [4, 0, 2] ! t + 3 * g ! (t + 1)"
    by blast
  have "length g = 3" using len by simp
  moreover have "g ! 2 = 2" using lst by (simp add: numeral_2_eq_2)
  moreover have "g ! 1 = 0 + 3 * g ! 2" using rec [rule_format, of 1] by (simp add: numeral_2_eq_2)
  moreover have "g ! 0 = 4 + 3 * g ! 1" using rec [rule_format, of 0] by (simp add: numeral_2_eq_2)
  ultimately show ?thesis using g ne by blast
qed

section \<open>Properties of the delayed-reward transform\<close>

lemma delay_rewards_shape:
  "rs \<noteq> [] \<Longrightarrow> delay_rewards rs = Inr (replicate (length rs - 1) 0 @ [sum_list rs])"
proof -
  assume ne: "rs \<noteq> []"
  let ?n = "length rs - 1"
  have "drop ?n (rs[?n := sum_list rs]) = [sum_list rs]"
    using ne by (simp add: drop_update_swap [symmetric] upd_conv_take_nth_drop)
  then show ?thesis using ne by (simp add: delay_rewards_def Let_def)
qed

lemma discount_cumsum_delayed:
  "discount_cumsum (replicate n 0 @ [S :: real]) 1 = Inr (replicate (Suc n) S)"
proof -
  let ?x = "replicate n 0 @ [S]"
  have ne: "?x \<noteq> []" by simp
  from discount_cumsum_recurrence [OF ne, of 1]
  obtain g where g: "discount_cumsum ?x 1 = Inr g" and len: "length g = Suc n"
    and lst0: "g ! (length ?x - 1) = ?x ! (length ?x - 1)"
    and rec: "\<forall>t. t + 1 < length ?x \<longrightarrow> g ! t = ?x ! t + 1 * g ! (t + 1)"
    by auto
  have lst: "g ! n = S" using lst0 by (simp add: nth_append)
  have step: "\<And>t. t < n \<Longrightarrow> g ! t = g ! Suc t"
    using rec by (simp add: nth_append)
  have all: "i \<le> n \<Longrightarrow> g ! (n - i) = S" for i
  proof (induction i)
    case 0 then show ?case using lst by simp
  next
    case (Suc i)
    then have "g ! (n - Suc i) = g ! Suc (n - Suc i)" by (intro step) simp
    also have "Suc (n - Suc i) = n - i" using Suc.prems by simp
    finally show ?case using Suc by simp
  qed
  have "g ! j = S" if "j < Suc n" for j
    using all [of "n - j"] that by simp
  then have "g = replicate (Suc n) S"
    using len by (simp add: list_eq_iff_nth_eq del: replicate_Suc)
  then show ?thesis using g by simp
qed

lemma load_path_delayed:
  assumes "rewards p \<noteq> []"
  shows "load_path ''delayed'' p =
     Inr (p\<lparr>rewards := replicate (length (rewards p) - 1) 0 @ [sum_list (rewards p)],
            rtg := replicate (length (rewards p)) (sum_list (rewards p))\<rparr>)"
proof -
  have "Suc (length (rewards p) - 1) = length (rewards p)" using assms by simp
  then show ?thesis
    using assms discount_cumsum_delayed [of "length (rewards p) - 1" "sum_list (rewards p)"]
    by (simp add: load_path_def delay_rewards_shape)
qed

text \<open>
  Claim C6. The delayed-reward transform runs in the loading loop before
  \<open>discount_cumsum\<close>: a non-empty reward series becomes zeros followed by its total, and
  the return-to-go of the transformed series is that total at every step. Rewards
  \<open>[1,2,3]\<close> become \<open>[0,0,6]\<close>, whose return-to-go is \<open>[6,6,6]\<close>.
\<close>

theorem delayed_rewards_then_rtg:
  "(rewards p \<noteq> [] \<longrightarrow>
      load_path ''delayed'' p =
        Inr (p\<lparr>rewards := replicate (length (rewards p) - 1) 0 @ [sum_list (rewards p)],
               rtg := replicate (length (rewards p)) (sum_list (rewards p))\<rparr>)) \<and>
   delay_rewards [1, 2, 3] = Inr [0, 0, 6] \<and>
   discount_cumsum [0, 0, 6 :: real] 1 = Inr [6, 6, 6]"
proof (intro conjI)
  show "rewards p \<noteq> [] \<longrightarrow>
      load_path ''delayed'' p =
        Inr (p\<lparr>rewards := replicate (length (rewards p) - 1) 0 @ [sum_list (rewards p)],
               rtg := replicate (length (rewards p)) (sum_list (rewards p))\<rparr>)"
    using load_path_delayed [of p] by blast
  show "delay_rewards [1, 2, 3] = Inr [0, 0, 6]"
    by (simp add: delay_rewards_def)
  show "discount_cumsum [0, 0, 6 :: real] 1 = Inr [6, 6, 6]"
    by (simp add: discount_cumsum_def)
qed

theorem delayed_rewards_then_rtg_witness:
  "rewards \<lparr>observations = [[0], [0], [0]], actions = [[0], [0], [0]], rewards = [1, 2, 3],
            dones = [False, False, True], rtg = []\<rparr> \<noteq> [] \<and>
   load_path ''delayed''
     \<lparr>observations = [[0], [0], [0]], actions = [[0], [0], [0]], rewards = [1, 2, 3],
      dones = [False, False, True], rtg = []\<rparr> =
   Inr \<lparr>observations = [[0], [0], [0]], actions = [[0], [0], [0]], rewards = [0, 0, 6],
        dones = [False, False, True], rtg = [6, 6, 6]\<rparr>"
  using delayed_rewards_then_rtg
    [of "\<lparr>observations = [[0], [0], [0]], actions = [[0], [0], [0]], rewards = [1, 2, 3],
            dones = [False, False, True], rtg = []\<rparr>"]
  by (simp add: numeral_3_eq_3)

section \<open>Properties of the trajectory selection\<close>

lemma select_inv_step:
  assumes inv: "select_inv traj_lens inds B (ts, k, ind)"
    and c: "ind \<ge> 0" "ts + int (traj_lens ! (inds ! nat ind)) \<le> B"
  shows "select_inv traj_lens inds B (ts + int (traj_lens ! (inds ! nat ind)), k + 1, ind - 1)"
proof -
  let ?n = "length inds"
  from inv have a: "int k + ind = int ?n - 1" and k1: "1 \<le> k" and kn: "k \<le> ?n"
    and ts: "ts = int (sum_list (map (\<lambda>i. traj_lens ! i) (drop (?n - k) inds)))"
    by (simp_all add: select_inv_def)
  have ni: "nat ind = ?n - (k + 1)" using a c(1) by linarith
  have lt: "?n - (k + 1) < ?n" using a c(1) k1 by linarith
  have suc: "Suc (?n - (k + 1)) = ?n - k" using a c(1) by linarith
  have "drop (?n - (k + 1)) inds = inds ! (?n - (k + 1)) # drop (Suc (?n - (k + 1))) inds"
    using lt by (simp add: Cons_nth_drop_Suc)
  then have d: "drop (?n - (k + 1)) inds = inds ! nat ind # drop (?n - k) inds"
    using ni suc by simp
  have "k + 1 \<le> ?n" using a c(1) by linarith
  then show ?thesis
    using a c ts d by (simp add: select_inv_def)
qed

lemma select_loop_inv:
  "select_inv traj_lens inds B st \<Longrightarrow>
   select_inv traj_lens inds B (select_loop traj_lens inds B st) \<and>
   (case select_loop traj_lens inds B st of (ts, k, ind) \<Rightarrow>
      \<not> (ind \<ge> 0 \<and> ts + int (traj_lens ! (inds ! nat ind)) \<le> B))"
proof (induction traj_lens inds B st rule: select_loop.induct)
  case (1 traj_lens inds B ts k ind)
  show ?case
  proof (cases "ind \<ge> 0 \<and> ts + int (traj_lens ! (inds ! nat ind)) \<le> B")
    case True
    then have "select_inv traj_lens inds B (ts + int (traj_lens ! (inds ! nat ind)), k + 1, ind - 1)"
      using select_inv_step [OF "1.prems"] by blast
    from "1.IH" [OF True this] True show ?thesis by simp
  next
    case False
    then show ?thesis using "1.prems" by auto
  qed
qed

lemma argsort_props:
  "length (argsort xs) = length xs" "set (argsort xs) = {0 ..< length xs}"
  "distinct (argsort xs)" "sorted (map (\<lambda>i. xs ! i) (argsort xs))"
  by (simp_all add: argsort_def)

lemma argsort_last_max:
  assumes "j < length xs"
  shows "xs ! j \<le> xs ! (argsort xs ! (length (argsort xs) - 1))"
proof -
  let ?a = "argsort xs"
  have "j \<in> set ?a" using assms by (simp add: argsort_props)
  then obtain m where m: "m < length ?a" "?a ! m = j" by (auto simp: in_set_conv_nth)
  have "map (\<lambda>i. xs ! i) ?a ! m \<le> map (\<lambda>i. xs ! i) ?a ! (length ?a - 1)"
    using m(1) argsort_props(4) [of xs] by (intro sorted_nth_mono) simp_all
  then show ?thesis using m by simp
qed

lemma sum_drop_le:
  fixes f :: "nat \<Rightarrow> nat"
  shows "sum_list (map f (drop m xs)) \<le> sum_list (map f xs)"
proof -
  have "sum_list (map f xs) = sum_list (map f (take m xs)) + sum_list (map f (drop m xs))"
    by (metis append_take_drop_id map_append sum_list_append)
  then show ?thesis by simp
qed

lemma sum_argsort:
  fixes traj_lens :: "nat list"
  assumes "length traj_lens = length xs"
  shows "sum_list (map (\<lambda>i. traj_lens ! i) (argsort xs)) = sum_list traj_lens"
proof -
  have "sum_list (map (\<lambda>i. traj_lens ! i) (argsort xs)) = sum (\<lambda>i. traj_lens ! i) (set (argsort xs))"
    using argsort_props(3) by (simp add: sum_list_distinct_conv_sum_set)
  also have "\<dots> = (\<Sum>i = 0 ..< length traj_lens. traj_lens ! i)"
    using assms by (simp add: argsort_props)
  also have "\<dots> = sum_list traj_lens" by (simp add: sum_list_sum_nth)
  finally show ?thesis .
qed

lemma select_trajectories_result:
  fixes pct_traj :: real and trajectories :: "path list"
  assumes ne: "trajectories \<noteq> []"
  defines "lens \<equiv> traj_lens_of trajectories"
    and "inds \<equiv> argsort (traj_total_return_of trajectories)"
    and "B \<equiv> budget pct_traj trajectories"
  shows "\<exists>k. select_trajectories pct_traj trajectories = Inr (drop (length inds - k) inds, k) \<and>
             1 \<le> k \<and> k \<le> length inds \<and>
             (k = 1 \<or> int (sum_list (map (\<lambda>i. lens ! i) (drop (length inds - k) inds))) \<le> B) \<and>
             (int (sum_list lens) \<le> B \<longrightarrow> k = length inds)"
proof -
  let ?n = "length inds"
  have n: "?n = length trajectories"
    by (simp add: inds_def argsort_props traj_total_return_of_def)
  have npos: "0 < ?n" using ne n by simp
  have indsne: "inds \<noteq> []" using npos by auto
  let ?st0 = "(int (lens ! (inds ! (?n - 1))), 1::nat, int (length trajectories) - 2)"
  have "drop (?n - 1) inds = [inds ! (?n - 1)]"
    using npos by (metis Suc_diff_1 Cons_nth_drop_Suc diff_less drop_all le_refl zero_less_one)
  then have inv0: "select_inv lens inds B ?st0"
    using npos n by (simp add: select_inv_def Suc_le_eq)
  obtain ts k ind where r: "select_loop lens inds B ?st0 = (ts, k, ind)"
    by (cases "select_loop lens inds B ?st0") auto
  from select_loop_inv [OF inv0] r
  have inv: "select_inv lens inds B (ts, k, ind)"
    and ex: "\<not> (ind \<ge> 0 \<and> ts + int (lens ! (inds ! nat ind)) \<le> B)"
    by simp_all
  from inv have a: "int k + ind = int ?n - 1" and k1: "1 \<le> k" and kn: "k \<le> ?n"
    and ts: "ts = int (sum_list (map (\<lambda>i. lens ! i) (drop (?n - k) inds)))"
    and bd: "k = 1 \<or> ts \<le> B"
    by (auto simp add: select_inv_def)
  have res: "select_trajectories pct_traj trajectories = Inr (drop (?n - k) inds, k)"
    using indsne r k1
    by (simp add: select_trajectories_def Let_def slice_last_def lens_def [symmetric]
        inds_def [symmetric] B_def budget_def)
  have full: "k = ?n" if tot: "int (sum_list lens) \<le> B"
  proof (rule ccontr)
    assume "k \<noteq> ?n"
    then have i0: "ind \<ge> 0" using a kn by linarith
    have ni: "nat ind = ?n - (k + 1)" using a i0 by linarith
    have lt: "?n - (k + 1) < ?n" using npos by linarith
    have suc: "Suc (?n - (k + 1)) = ?n - k" using a i0 by linarith
    have "drop (?n - (k + 1)) inds = inds ! (?n - (k + 1)) # drop (Suc (?n - (k + 1))) inds"
      using lt by (simp add: Cons_nth_drop_Suc)
    then have d: "drop (?n - (k + 1)) inds = inds ! nat ind # drop (?n - k) inds"
      using ni suc by simp
    have "ts + int (lens ! (inds ! nat ind)) =
            int (sum_list (map (\<lambda>i. lens ! i) (drop (?n - (k + 1)) inds)))"
      using ts d by simp
    also have "\<dots> \<le> int (sum_list (map (\<lambda>i. lens ! i) inds))"
      using sum_drop_le [of "\<lambda>i. lens ! i" "?n - (k + 1)" inds] by simp
    also have "\<dots> = int (sum_list lens)"
      unfolding inds_def
      by (subst sum_argsort) (simp_all add: lens_def traj_lens_of_def traj_total_return_of_def)
    finally show False using ex i0 tot by simp
  qed
  show ?thesis using res k1 kn bd ts full by blast
qed

lemma budget_full:
  "sum_list (traj_lens_of trajectories) \<le> nat (budget 1 trajectories)"
  "int (sum_list (traj_lens_of trajectories)) \<le> budget 1 trajectories"
  by (simp_all add: budget_def py_int_def)

text \<open>
  Claim C3. For a dataset with at least one trajectory and any \<open>pct_traj\<close> (in particular
  any in \<open>(0,1]\<close>), the selection is non-empty, holds distinct valid indices, contains a
  trajectory \<open>b\<close> of maximal return, and its cumulative timestep count is at most the budget
  \<open>max(int(pct_traj * total), 1)\<close> or is the length of \<open>b\<close> alone; for \<open>pct_traj = 1\<close> every
  trajectory is selected. (With no trajectory the code raises.)
\<close>

theorem selection_set:
  fixes pct_traj :: real and trajectories :: "path list"
  assumes ne: "trajectories \<noteq> []"
  shows "\<exists>sel k b. select_trajectories pct_traj trajectories = Inr (sel, k) \<and>
           sel \<noteq> [] \<and> length sel = k \<and> distinct sel \<and> set sel \<subseteq> {0 ..< length trajectories} \<and>
           b \<in> set sel \<and>
           (\<forall>j < length trajectories.
               traj_total_return_of trajectories ! j \<le> traj_total_return_of trajectories ! b) \<and>
           (int (sum_list (map (\<lambda>i. traj_lens_of trajectories ! i) sel)) \<le> budget pct_traj trajectories \<or>
            sum_list (map (\<lambda>i. traj_lens_of trajectories ! i) sel) = traj_lens_of trajectories ! b) \<and>
           (pct_traj = 1 \<longrightarrow> set sel = {0 ..< length trajectories})"
proof -
  let ?lens = "traj_lens_of trajectories"
  let ?rets = "traj_total_return_of trajectories"
  let ?inds = "argsort ?rets"
  let ?n = "length ?inds"
  from select_trajectories_result [OF ne, of pct_traj]
  obtain k where res: "select_trajectories pct_traj trajectories = Inr (drop (?n - k) ?inds, k)"
    and k1: "1 \<le> k" and kn: "k \<le> ?n"
    and bd: "k = 1 \<or> int (sum_list (map (\<lambda>i. ?lens ! i) (drop (?n - k) ?inds))) \<le> budget pct_traj trajectories"
    and full: "int (sum_list ?lens) \<le> budget pct_traj trajectories \<longrightarrow> k = ?n"
    by blast
  let ?sel = "drop (?n - k) ?inds"
  let ?b = "?inds ! (?n - 1)"
  have n: "?n = length trajectories"
    by (simp add: argsort_props traj_total_return_of_def)
  have lr: "length ?rets = length trajectories" by (simp add: traj_total_return_of_def)
  have len: "length ?sel = k" using kn by simp
  have selne: "?sel \<noteq> []" using len k1 by auto
  have dist: "distinct ?sel" by (simp add: argsort_props)
  have sub: "set ?sel \<subseteq> {0 ..< length trajectories}"
    using set_drop_subset [of "?n - k" ?inds] argsort_props(2) [of ?rets] lr by simp
  have "last ?sel = last ?inds" using kn k1 by simp
  also have "\<dots> = ?b" using selne by (intro last_conv_nth) auto
  finally have lastb: "last ?sel = ?b" .
  then have bin: "?b \<in> set ?sel" using selne last_in_set by metis
  have mx: "\<forall>j < length trajectories. ?rets ! j \<le> ?rets ! ?b"
    using argsort_last_max [of _ ?rets] lr by simp
  have cum: "int (sum_list (map (\<lambda>i. ?lens ! i) ?sel)) \<le> budget pct_traj trajectories \<or>
             sum_list (map (\<lambda>i. ?lens ! i) ?sel) = ?lens ! ?b"
  proof (cases "k = 1")
    case True
    then have "length ?sel = 1" using len by simp
    then have "?sel = [last ?sel]"
      by (metis One_nat_def append_butlast_last_id butlast_conv_take diff_self_eq_0
          self_append_conv2 selne take_eq_Nil)
    then have "?sel = [?b]" using lastb by simp
    then show ?thesis by simp
  next
    case False then show ?thesis using bd by blast
  qed
  have all: "pct_traj = 1 \<longrightarrow> set ?sel = {0 ..< length trajectories}"
  proof
    assume "pct_traj = 1"
    then have "k = ?n" using full budget_full(2) [of trajectories] by simp
    then show "set ?sel = {0 ..< length trajectories}"
      using argsort_props(2) [of ?rets] lr by simp
  qed
  show ?thesis using res selne len dist sub bin mx cum all by blast
qed

theorem selection_set_witness:
  "[traj_B, traj_A] \<noteq> [] \<and> select_trajectories (1 / 2) [traj_B, traj_A] = Inr ([1], 1) \<and>
   budget (1 / 2) [traj_B, traj_A] = 5 \<and>
   (\<exists>sel k b. select_trajectories (1 / 2) [traj_B, traj_A] = Inr (sel, k) \<and> sel \<noteq> [] \<and>
        length sel = k \<and> b \<in> set sel)"
proof -
  have ne: "[traj_B, traj_A] \<noteq> []" by simp
  have ev: "select_trajectories (1 / 2) [traj_B, traj_A] = Inr ([1], 1)"
    by (simp add: select_trajectories_def traj_A_def traj_B_def traj_lens_of_def
        traj_total_return_of_def py_int_def argsort_def slice_last_def Let_def)
  have bu: "budget (1 / 2) [traj_B, traj_A] = 5"
    by (simp add: budget_def traj_A_def traj_B_def traj_lens_of_def py_int_def)
  from selection_set [OF ne, of "1 / 2"] show ?thesis using ne ev bu by blast
qed

section \<open>Properties of \<open>get_batch\<close>\<close>

lemma and_then_simps [simp]:
  "and_then (Inr v) f = f v" "and_then (Inl e) f = Inl e"
  by (simp_all add: and_then_def)

lemma sequence_map_Inr:
  "(\<And>x. x \<in> set xs \<Longrightarrow> f x = Inr (g x)) \<Longrightarrow> sequence (map f xs) = Inr (map g xs)"
  by (induction xs) simp_all

lemma np_take_ok:
  "hi \<le> length arr \<Longrightarrow> np_take arr [lo ..< hi] = Inr (map (\<lambda>t. arr ! t) [lo ..< hi])"
  by (simp add: np_take_def)

lemma assign_last_ok:
  assumes "length vals = k" "k \<le> length row" "0 < k \<or> row = []"
  shows "assign_last k vals row = Inr (take (length row - k) row @ vals)"
  using assms by (auto simp: assign_last_def broadcast_to_def Let_def)

lemma assign_last_vec_ok:
  assumes "\<forall>v \<in> set vals. length v = n" "length vals = k" "k \<le> length row" "0 < k \<or> row = []"
  shows "assign_last_vec n k vals row = Inr (take (length row - k) row @ vals)"
proof -
  have "sequence (map (broadcast_to n) vals) = Inr (map (\<lambda>v. v) vals)"
    using assms(1) by (intro sequence_map_Inr) (simp add: broadcast_to_def)
  then show ?thesis
    using assign_last_ok [OF assms(2,3,4)] by (simp add: assign_last_vec_def)
qed

lemma window_facts:
  assumes "start < batch_len"
  shows "min (start + max_len) batch_len = start + window_len max_len start batch_len"
    and "window_len max_len start batch_len \<le> max_len"
    and "start + window_len max_len start batch_len \<le> batch_len"
    and "window_len max_len start batch_len = min max_len (batch_len - start)"
    and "0 < window_len max_len start batch_len \<or> max_len = 0"
  using assms by (auto simp: window_len_def)

lemma fill_row_ok:
  assumes wf: "wf_traj c traj" and st: "start < length (rewards traj)"
  shows "fill_row c max_len traj [start ..< min (start + max_len) (length (rewards traj))]
           (min (start + max_len) (length (rewards traj)) - start) =
         Inr (window_row c max_len traj start)"
proof -
  let ?L = "length (rewards traj)"
  let ?n = "window_len max_len start ?L"
  let ?ts = "[start ..< start + ?n]"
  note wfx = window_facts [OF st, of max_len]
  have e: "min (start + max_len) ?L = start + ?n" by (rule wfx(1))
  have n: "min (start + max_len) ?L - start = ?n" by (simp add: window_len_def)
  have le: "?n \<le> max_len" by (rule wfx(2))
  have hi: "start + ?n \<le> ?L" by (rule wfx(3))
  have pos: "0 < ?n \<or> max_len = 0" by (rule wfx(5))
  from wf have lo: "length (observations traj) = ?L" and la: "length (actions traj) = ?L"
    and ld: "length (dones traj) = ?L" and lg: "length (rtg traj) = ?L"
    and od: "\<forall>v \<in> set (observations traj). length v = cl_state_dim c"
    and ad: "\<forall>v \<in> set (actions traj). length v = cl_act_dim c"
    by (simp_all add: wf_traj_def)
  have t1: "np_take (observations traj) ?ts = Inr (map (\<lambda>t. observations traj ! t) ?ts)"
    using hi lo by (intro np_take_ok) simp
  have t2: "np_take (actions traj) ?ts = Inr (map (\<lambda>t. actions traj ! t) ?ts)"
    using hi la by (intro np_take_ok) simp
  have t3: "np_take (rewards traj) ?ts = Inr (map (\<lambda>t. rewards traj ! t) ?ts)"
    using hi by (intro np_take_ok) simp
  have t4: "np_take (dones traj) ?ts = Inr (map (\<lambda>t. dones traj ! t) ?ts)"
    using hi ld by (intro np_take_ok) simp
  have t5: "np_take (rtg traj) ?ts = Inr (map (\<lambda>t. rtg traj ! t) ?ts)"
    using hi lg by (intro np_take_ok) simp
  have a1: "assign_last_vec (cl_state_dim c) ?n (map (\<lambda>t. observations traj ! t) ?ts)
              (replicate max_len (replicate (cl_state_dim c) 0)) =
            Inr (replicate (max_len - ?n) (replicate (cl_state_dim c) 0) @ map (\<lambda>t. observations traj ! t) ?ts)"
    using od hi lo le pos by (subst assign_last_vec_ok) auto
  have a2: "assign_last_vec (cl_act_dim c) ?n (map (\<lambda>t. actions traj ! t) ?ts)
              (replicate max_len (replicate (cl_act_dim c) (- 10))) =
            Inr (replicate (max_len - ?n) (replicate (cl_act_dim c) (- 10)) @ map (\<lambda>t. actions traj ! t) ?ts)"
    using ad hi la le pos by (subst assign_last_vec_ok) auto
  have a3: "assign_last ?n vals (replicate max_len x) = Inr (replicate (max_len - ?n) x @ vals)"
    if "length vals = ?n" for vals :: "'b list" and x
    using that le pos by (subst assign_last_ok) auto
  show ?thesis
    unfolding e n fill_row_def
    by (simp add: t1 t2 t3 t4 t5 a1 a2 a3 window_row_def Let_def comp_def)
qed

lemma zip_map_same: "zip (map f xs) (map g xs) = map (\<lambda>x. (f x, g x)) xs"
  by (induction xs) simp_all

lemma pad_sequence_ok:
  assumes "start < batch_len"
  shows "pad_sequence max_len (- 1) (map int [start ..< min (start + max_len) batch_len]) =
         Inr (replicate (max_len - window_len max_len start batch_len) (- 1) @
              map int [start ..< start + window_len max_len start batch_len])"
proof -
  let ?n = "window_len max_len start batch_len"
  note wfx = window_facts [OF assms, of max_len]
  have e: "min (start + max_len) batch_len = start + ?n" by (rule wfx(1))
  show ?thesis
  proof (cases "?n = 0")
    case True
    then show ?thesis unfolding e by (simp add: pad_sequence_def)
  next
    case False
    then have pos: "0 < ?n" by simp
    have le: "?n \<le> max_len" by (rule wfx(2))
    have tr: "slice_last max_len (map int [start ..< start + ?n]) = map int [start ..< start + ?n]"
      using le pos by (simp add: slice_last_def)
    have ne: "map int [start ..< start + ?n] \<noteq> []" using pos by simp
    have "assign_last ?n (map int [start ..< start + ?n]) (replicate max_len (- 1)) =
          Inr (take (length (replicate max_len (- 1 :: int)) - ?n) (replicate max_len (- 1)) @
               map int [start ..< start + ?n])"
      using le pos by (intro assign_last_ok) simp_all
    then show ?thesis
      unfolding e using ne le by (simp add: pad_sequence_def tr Let_def)
  qed
qed

lemma randint_outcomes_range:
  "randint_outcomes 0 (int n - 1) = map int [0 ..< n]"
proof (induction n)
  case 0
  show ?case by (simp add: randint_outcomes_def)
next
  case (Suc n)
  have "[0 .. int (Suc n) - 1] = [0 .. int n - 1] @ [int n]"
    using upto_rec2 [of 0 "int n"] by simp
  then show ?case using Suc by (simp add: randint_outcomes_def)
qed

lemma randint_mod:
  assumes "0 < n"
  shows "randint u 0 (int n - 1) = Inr (int (u mod n))"
  using assms unfolding randint_def randint_outcomes_range by simp

lemma valid_drawsD:
  assumes "valid_draws c idx start batch_size" "i < batch_size"
  shows "idx i < length (cl_sorted_return_inds c)"
    and "start i < length (rewards (sampled_traj c idx i))"
  using assms by (auto simp: valid_draws_def randint_outcomes_def)

lemma valid_sourcesD:
  assumes "valid_sources c idx batch_size" "i < batch_size"
  shows "idx i < length (cl_sorted_return_inds c)"
    and "0 < length (rewards (sampled_traj c idx i))"
  using assms by (auto simp: valid_sources_def)

lemma valid_draws_sources:
  assumes "valid_draws c idx start batch_size"
  shows "valid_sources c idx batch_size"
  using assms by (auto simp: valid_draws_def valid_sources_def randint_outcomes_def)

lemma sampled_traj_wf_sources:
  assumes "wf_closure c" "valid_sources c idx batch_size" "i < batch_size"
  shows "cl_sorted_return_inds c ! idx i < length (cl_trajectories c)"
    and "wf_traj c (sampled_traj c idx i)"
  using assms valid_sourcesD(1) [OF assms(2,3)]
  by (auto simp: wf_closure_def sampled_traj_def)

lemma sampled_traj_wf:
  assumes "wf_closure c" "valid_draws c idx start batch_size" "i < batch_size"
  shows "cl_sorted_return_inds c ! idx i < length (cl_trajectories c)"
    and "wf_traj c (sampled_traj c idx i)"
  using sampled_traj_wf_sources [OF assms(1) valid_draws_sources [OF assms(2)] assms(3)]
  by simp_all

lemma get_batch_mod:
  assumes wf: "wf_closure c" and vs: "valid_sources c idx batch_size"
  shows "get_batch c idx draw batch_size max_len =
           Inr (window_batch c idx (\<lambda>i. draw i mod length (rewards (sampled_traj c idx i)))
                  batch_size max_len)"
proof -
  let ?is = "[0 ..< batch_size]"
  let ?tr = "sampled_traj c idx"
  let ?L = "\<lambda>i. length (rewards (?tr i))"
  let ?s = "\<lambda>i. draw i mod ?L i"
  have st: "?s i < ?L i" if "i < batch_size" for i
    using valid_sourcesD(2) [OF vs that] by simp
  have s1: "sequence (map (\<lambda>i. and_then (py_index (cl_sorted_return_inds c) (idx i))
                                  (py_index (cl_trajectories c))) ?is) = Inr (map ?tr ?is)"
  proof (intro sequence_map_Inr)
    fix i assume "i \<in> set ?is"
    then have i: "i < batch_size" by simp
    show "and_then (py_index (cl_sorted_return_inds c) (idx i)) (py_index (cl_trajectories c)) =
          Inr (?tr i)"
      using valid_sourcesD(1) [OF vs i] sampled_traj_wf_sources(1) [OF wf vs i]
      by (simp add: py_index_def sampled_traj_def)
  qed
  have s2': "sequence (map (\<lambda>i. randint (draw i) 0 (int (?L i) - 1)) ?is) =
             Inr (map (\<lambda>i. int (?s i)) ?is)"
  proof (intro sequence_map_Inr)
    fix i assume "i \<in> set ?is"
    then have i: "i < batch_size" by simp
    show "randint (draw i) 0 (int (?L i) - 1) = Inr (int (?s i))"
      using valid_sourcesD(2) [OF vs i] by (rule randint_mod)
  qed
  have z: "zip ?is (map (\<lambda>traj. length (rewards traj)) (map ?tr ?is)) = map (\<lambda>i. (i, ?L i)) ?is"
    using zip_map_same [of "\<lambda>i. i" ?is ?L] by (simp add: comp_def)
  have s2: "sequence (map (\<lambda>(i, batch_len). randint (draw i) 0 (int batch_len - 1))
                        (zip ?is (map (\<lambda>traj. length (rewards traj)) (map ?tr ?is)))) =
            Inr (map (\<lambda>i. int (?s i)) ?is)"
    unfolding z using s2' by (simp add: comp_def)
  have s3: "sequence (map (\<lambda>i. fill_row c max_len (?tr i)
                [?s i ..< min (?s i + max_len) (?L i)]
                (min (?s i + max_len) (?L i) - ?s i)) ?is) =
            Inr (map (\<lambda>i. window_row c max_len (?tr i) (?s i)) ?is)"
  proof (intro sequence_map_Inr)
    fix i assume "i \<in> set ?is"
    then have i: "i < batch_size" by simp
    show "fill_row c max_len (?tr i) [?s i ..< min (?s i + max_len) (?L i)]
            (min (?s i + max_len) (?L i) - ?s i) = Inr (window_row c max_len (?tr i) (?s i))"
      using sampled_traj_wf_sources(2) [OF wf vs i] st [OF i] by (rule fill_row_ok)
  qed
  have s4: "sequence (map (\<lambda>i. pad_sequence max_len (- 1)
                (map int [?s i ..< min (?s i + max_len) (?L i)])) ?is) =
            Inr (map (\<lambda>i. replicate (max_len - window_len max_len (?s i) (?L i)) (- 1) @
                          map int [?s i ..< ?s i + window_len max_len (?s i) (?L i)]) ?is)"
  proof (intro sequence_map_Inr)
    fix i assume "i \<in> set ?is"
    then have i: "i < batch_size" by simp
    show "pad_sequence max_len (- 1) (map int [?s i ..< min (?s i + max_len) (?L i)]) =
          Inr (replicate (max_len - window_len max_len (?s i) (?L i)) (- 1) @
               map int [?s i ..< ?s i + window_len max_len (?s i) (?L i)])"
      using st [OF i] by (rule pad_sequence_ok)
  qed
  have b1: "broadcast_to (cl_state_dim c) (cl_state_mean c) = Inr (cl_state_mean c)"
    and b2: "broadcast_to (cl_state_dim c) (cl_state_std c) = Inr (cl_state_std c)"
    using wf by (simp_all add: wf_closure_def broadcast_to_def)
  show ?thesis
    unfolding get_batch_def s1 and_then_simps Let_def s2
    by (simp add: s3 s4 b1 b2 zip_map_same comp_def window_batch_def padded_timesteps_def Let_def)
qed

lemma window_batch_cong:
  assumes "\<And>i. i < batch_size \<Longrightarrow> start i = start' i"
  shows "window_batch c idx start batch_size max_len = window_batch c idx start' batch_size max_len"
proof -
  have a: "map (\<lambda>i. window_row c max_len (sampled_traj c idx i) (start i)) [0 ..< batch_size] =
        map (\<lambda>i. window_row c max_len (sampled_traj c idx i) (start' i)) [0 ..< batch_size]"
    using assms by simp
  have b: "map (\<lambda>i. padded_timesteps max_len (start i)
                         (length (rewards (sampled_traj c idx i)))) [0 ..< batch_size] =
        map (\<lambda>i. padded_timesteps max_len (start' i)
                         (length (rewards (sampled_traj c idx i)))) [0 ..< batch_size]"
    using assms by simp
  show ?thesis unfolding window_batch_def a b ..
qed

lemma get_batch_ok:
  assumes wf: "wf_closure c" and vd: "valid_draws c idx start batch_size"
  shows "get_batch c idx start batch_size max_len = Inr (window_batch c idx start batch_size max_len)"
proof -
  have "window_batch c idx (\<lambda>i. start i mod length (rewards (sampled_traj c idx i)))
          batch_size max_len = window_batch c idx start batch_size max_len"
    using valid_drawsD(2) [OF vd] by (intro window_batch_cong) simp
  then show ?thesis using get_batch_mod [OF wf valid_draws_sources [OF vd], of start max_len] by simp
qed

lemma window_batch_rows:
  fixes c :: closure and idx start :: "nat \<Rightarrow> nat" and batch_size max_len i :: nat
  assumes "i < batch_size"
  defines "b \<equiv> window_batch c idx start batch_size max_len"
    and "tr \<equiv> sampled_traj c idx i"
  defines "n \<equiv> window_len max_len (start i) (length (rewards tr))"
  shows "out_mask b ! i = replicate (max_len - n) False @ replicate n True"
    and "out_a b ! i = replicate (max_len - n) (replicate (cl_act_dim c) (- 10)) @
                       map (\<lambda>t. actions tr ! t) [start i ..< start i + n]"
    and "out_r b ! i = map (\<lambda>v. [v]) (replicate (max_len - n) 0 @
                       map (\<lambda>t. rewards tr ! t) [start i ..< start i + n])"
    and "out_d b ! i = map (\<lambda>v. [v]) (replicate (max_len - n) 2 @
                       map (\<lambda>t. of_bool (dones tr ! t)) [start i ..< start i + n])"
    and "out_rtg b ! i = map (\<lambda>v. [v]) (replicate (max_len - n) 0 @
                       map (\<lambda>t. rtg tr ! t / cl_scale c) [start i ..< start i + n])"
    and "out_timesteps b ! i = replicate (max_len - n) 0 @
                       map (\<lambda>t. int t + 1) [start i ..< start i + n]"
    and "out_s b ! i = map (normalize_state (cl_state_mean c) (cl_state_std c))
                       (replicate (max_len - n) (replicate (cl_state_dim c) 0) @
                        map (\<lambda>t. observations tr ! t) [start i ..< start i + n])"
  using assms(1)
  by (simp_all add: b_def tr_def n_def window_batch_def window_row_def padded_timesteps_def
      expand_dims_def Let_def)

lemma window_batch_lengths:
  "length (out_s (window_batch c idx start batch_size max_len)) = batch_size"
  "length (out_a (window_batch c idx start batch_size max_len)) = batch_size"
  "length (out_r (window_batch c idx start batch_size max_len)) = batch_size"
  "length (out_d (window_batch c idx start batch_size max_len)) = batch_size"
  "length (out_rtg (window_batch c idx start batch_size max_len)) = batch_size"
  "length (out_timesteps (window_batch c idx start batch_size max_len)) = batch_size"
  "length (out_mask (window_batch c idx start batch_size max_len)) = batch_size"
  by (simp_all add: window_batch_def expand_dims_def Let_def)

lemma window_batch_row_lengths:
  fixes c :: closure and idx start :: "nat \<Rightarrow> nat" and batch_size max_len i :: nat
  assumes i: "i < batch_size" and st: "start i < length (rewards (sampled_traj c idx i))"
  defines "b \<equiv> window_batch c idx start batch_size max_len"
  shows "length (out_s b ! i) = max_len" "length (out_a b ! i) = max_len"
    "length (out_r b ! i) = max_len" "length (out_d b ! i) = max_len"
    "length (out_rtg b ! i) = max_len" "length (out_timesteps b ! i) = max_len"
    "length (out_mask b ! i) = max_len"
  using window_facts(2) [OF st, of max_len]
  unfolding b_def window_batch_rows [OF i] by simp_all

lemma window_batch_mask_entry:
  fixes c :: closure and idx start :: "nat \<Rightarrow> nat" and batch_size max_len i j :: nat
  assumes i: "i < batch_size" and st: "start i < length (rewards (sampled_traj c idx i))"
    and j: "j < max_len"
  shows "out_mask (window_batch c idx start batch_size max_len) ! i ! j =
         (max_len - window_len max_len (start i) (length (rewards (sampled_traj c idx i))) \<le> j)"
  using window_facts(2) [OF st, of max_len] j
  unfolding window_batch_rows [OF i] by (simp add: nth_append)

lemma window_batch_pad_entry:
  fixes c :: closure and idx start :: "nat \<Rightarrow> nat" and batch_size max_len i j :: nat
  assumes i: "i < batch_size"
    and j: "j < max_len - window_len max_len (start i) (length (rewards (sampled_traj c idx i)))"
  defines "b \<equiv> window_batch c idx start batch_size max_len"
  shows "out_a b ! i ! j = replicate (cl_act_dim c) (- 10)"
    and "out_d b ! i ! j = [2]"
    and "out_timesteps b ! i ! j = 0"
    and "out_s b ! i ! j =
           normalize_state (cl_state_mean c) (cl_state_std c) (replicate (cl_state_dim c) 0)"
  using j unfolding b_def window_batch_rows [OF i] by (simp_all add: nth_append)

lemma window_batch_valid_entry:
  fixes c :: closure and idx start :: "nat \<Rightarrow> nat" and batch_size max_len i j :: nat
  assumes i: "i < batch_size" and st: "start i < length (rewards (sampled_traj c idx i))"
    and j: "j < max_len"
    and v: "max_len - window_len max_len (start i) (length (rewards (sampled_traj c idx i))) \<le> j"
  defines "b \<equiv> window_batch c idx start batch_size max_len"
    and "t \<equiv> start i + (j - (max_len - window_len max_len (start i)
                 (length (rewards (sampled_traj c idx i)))))"
  shows "t < length (rewards (sampled_traj c idx i))"
    and "out_timesteps b ! i ! j = int t + 1"
    and "out_a b ! i ! j = actions (sampled_traj c idx i) ! t"
    and "out_r b ! i ! j = [rewards (sampled_traj c idx i) ! t]"
proof -
  let ?L = "length (rewards (sampled_traj c idx i))"
  let ?n = "window_len max_len (start i) ?L"
  have le: "?n \<le> max_len" and hi: "start i + ?n \<le> ?L"
    using window_facts(2,3) [OF st, of max_len] by simp_all
  have jn: "j - (max_len - ?n) < ?n" using le j v by linarith
  show "t < ?L" using jn hi by (simp add: t_def)
  show "out_timesteps b ! i ! j = int t + 1"
    using jn v unfolding b_def t_def window_batch_rows [OF i] by (simp add: nth_append)
  show "out_a b ! i ! j = actions (sampled_traj c idx i) ! t"
    using jn v unfolding b_def t_def window_batch_rows [OF i] by (simp add: nth_append)
  show "out_r b ! i ! j = [rewards (sampled_traj c idx i) ! t]"
    using jn v le j unfolding b_def t_def window_batch_rows [OF i] by (simp add: nth_append)
qed

lemma normalize_state_zero:
  assumes "length mean = n" "length std = n"
  shows "normalize_state mean std (replicate n 0) = map (\<lambda>(m, sd). (0 - m) / sd) (zip mean std)"
  using assms by (simp add: normalize_state_def list_eq_iff_nth_eq)

lemma normalised_zero_is_zero_iff:
  assumes "length mean = n" "length std = n" "\<forall>sd \<in> set std. (0::real) < sd"
  shows "map (\<lambda>(m, sd). (0 - m) / sd) (zip mean std) = replicate n 0 \<longleftrightarrow> (\<forall>m \<in> set mean. m = 0)"
proof -
  have sd: "std ! k \<noteq> 0" if "k < n" for k
    using assms(2,3) that by (metis less_irrefl nth_mem)
  have "map (\<lambda>(m, sd). (0 - m) / sd) (zip mean std) = replicate n 0 \<longleftrightarrow>
        (\<forall>k < n. mean ! k = 0)"
    using assms(1,2) sd by (auto simp: list_eq_iff_nth_eq)
  also have "\<dots> \<longleftrightarrow> (\<forall>m \<in> set mean. m = 0)"
    using assms(1) by (auto simp: all_set_conv_all_nth)
  finally show ?thesis .
qed

lemma example_closure_stats:
  "cl_state_mean example_closure = state_mean_of 1 [traj_C]"
  "cl_state_std example_closure = state_std_of 1 [traj_C]"
  by (simp_all add: example_closure_def state_mean_of_def state_std_of_def all_states_def traj_C_def)

lemma example_closure_wf: "wf_closure example_closure"
  by (simp add: wf_closure_def wf_traj_def example_closure_def traj_C_def)

lemma example_draws_valid: "valid_draws example_closure first_traj start_at_3 1"
  by (simp add: valid_draws_def example_closure_def traj_C_def first_traj_def start_at_3_def
      sampled_traj_def randint_outcomes_def)

lemma example_get_batch:
  "get_batch example_closure first_traj start_at_3 1 2 = Inr example_batch"
  unfolding get_batch_ok [OF example_closure_wf example_draws_valid]
  by (simp add: window_batch_def window_row_def window_len_def padded_timesteps_def
      sampled_traj_def example_closure_def traj_C_def first_traj_def start_at_3_def
      example_batch_def normalize_state_def expand_dims_def Let_def)

lemma example_sources_valid: "valid_sources example_closure first_traj 1"
  by (simp add: valid_sources_def example_closure_def traj_C_def first_traj_def sampled_traj_def)

lemma example_get_batch_raw:
  "get_batch example_closure first_traj raw_output_7 1 2 = Inr example_batch"
  unfolding get_batch_mod [OF example_closure_wf example_sources_valid]
  by (simp add: window_batch_def window_row_def window_len_def padded_timesteps_def
      sampled_traj_def example_closure_def traj_C_def first_traj_def raw_output_7_def
      example_batch_def normalize_state_def expand_dims_def Let_def)

text \<open>
  Claim C2 as stated: the true suffix of the mask of a row has length
  \<open>min(max_len, trajectory_length)\<close>. It fails for a window that starts near the end of its
  trajectory: a trajectory of length 4, \<open>start = 3\<close> and \<open>max_len = 2\<close> give the mask
  \<open>[False, True]\<close>, whose true suffix has length 1, not \<open>min(2, 4) = 2\<close>.
\<close>

theorem mask_suffix_min_len_counterexample:
  "wf_closure example_closure \<and> valid_draws example_closure first_traj start_at_3 1 \<and>
   get_batch example_closure first_traj start_at_3 1 2 = Inr example_batch \<and>
   length (rewards (sampled_traj example_closure first_traj 0)) = 4 \<and>
   out_mask example_batch ! 0 = [False, True] \<and>
   out_mask example_batch ! 0 \<noteq>
     replicate (2 - min 2 (length (rewards (sampled_traj example_closure first_traj 0)))) False @
     replicate (min 2 (length (rewards (sampled_traj example_closure first_traj 0)))) True"
  using example_closure_wf example_draws_valid example_get_batch
  by (simp add: example_batch_def sampled_traj_def example_closure_def traj_C_def first_traj_def)

text \<open>
  Claim C2, amended. For every batch row the mask is false on a prefix and true on the
  matching suffix whose length is the window length \<open>end - start\<close> with
  \<open>end = min(start + max_len, trajectory_length)\<close>, that is
  \<open>min(max_len, trajectory_length - start)\<close>.
\<close>

theorem mask_suffix_is_window:
  assumes "wf_closure c" and "valid_draws c idx start batch_size"
  shows "\<exists>b. get_batch c idx start batch_size max_len = Inr b \<and>
           (\<forall>i < batch_size.
              out_mask b ! i =
                replicate (max_len - (min (start i + max_len) (length (rewards (sampled_traj c idx i))) - start i)) False @
                replicate (min (start i + max_len) (length (rewards (sampled_traj c idx i))) - start i) True \<and>
              min (start i + max_len) (length (rewards (sampled_traj c idx i))) - start i =
                min max_len (length (rewards (sampled_traj c idx i)) - start i))"
proof -
  let ?b = "window_batch c idx start batch_size max_len"
  have "out_mask ?b ! i =
          replicate (max_len - (min (start i + max_len) (length (rewards (sampled_traj c idx i))) - start i)) False @
          replicate (min (start i + max_len) (length (rewards (sampled_traj c idx i))) - start i) True \<and>
        min (start i + max_len) (length (rewards (sampled_traj c idx i))) - start i =
          min max_len (length (rewards (sampled_traj c idx i)) - start i)"
    if i: "i < batch_size" for i
    using window_batch_rows(1) [OF i, of c idx start max_len]
      window_facts(4) [OF valid_drawsD(2) [OF assms(2) i], of max_len]
    by (simp add: window_len_def)
  then show ?thesis using get_batch_ok [OF assms, of max_len] by blast
qed

theorem mask_suffix_is_window_witness:
  "wf_closure example_closure \<and> valid_draws example_closure first_traj start_at_3 1 \<and>
   (\<exists>b. get_batch example_closure first_traj start_at_3 1 2 = Inr b \<and>
        out_mask b ! 0 = [False, True])"
proof -
  from mask_suffix_is_window [OF example_closure_wf example_draws_valid, of 2]
  obtain b where b: "get_batch example_closure first_traj start_at_3 1 2 = Inr b"
    and m: "\<forall>i < 1. out_mask b ! i =
                replicate (2 - (min (start_at_3 i + 2) (length (rewards (sampled_traj example_closure first_traj i))) - start_at_3 i)) False @
                replicate (min (start_at_3 i + 2) (length (rewards (sampled_traj example_closure first_traj i))) - start_at_3 i) True"
    by blast
  from m have "out_mask b ! 0 = [False, True]"
    by (simp add: sampled_traj_def example_closure_def traj_C_def first_traj_def start_at_3_def)
  then show ?thesis using b example_closure_wf example_draws_valid by blast
qed

text \<open>
  Claim C5. Every returned array has first two dimensions \<open>(batch_size, max_len)\<close>. At a
  masked-false position the action slot is \<open>-10\<close> in every component, the done slot is
  \<open>2\<close> and the timestep is \<open>0\<close>; at a masked-true position the slot holds step \<open>t\<close> of the
  sampled trajectory and the timestep is \<open>t + 1 > 0\<close>.
\<close>

theorem batch_shape_and_padding:
  assumes "wf_closure c" and "valid_draws c idx start batch_size"
  shows "\<exists>b. get_batch c idx start batch_size max_len = Inr b \<and>
           length (out_s b) = batch_size \<and> length (out_a b) = batch_size \<and>
           length (out_r b) = batch_size \<and> length (out_d b) = batch_size \<and>
           length (out_rtg b) = batch_size \<and> length (out_timesteps b) = batch_size \<and>
           length (out_mask b) = batch_size \<and>
           (\<forall>i < batch_size.
              length (out_s b ! i) = max_len \<and> length (out_a b ! i) = max_len \<and>
              length (out_r b ! i) = max_len \<and> length (out_d b ! i) = max_len \<and>
              length (out_rtg b ! i) = max_len \<and> length (out_timesteps b ! i) = max_len \<and>
              length (out_mask b ! i) = max_len \<and>
              (\<forall>j < max_len.
                 (\<not> out_mask b ! i ! j \<longrightarrow>
                    out_a b ! i ! j = replicate (cl_act_dim c) (- 10) \<and>
                    out_d b ! i ! j = [2] \<and> out_timesteps b ! i ! j = 0) \<and>
                 (out_mask b ! i ! j \<longrightarrow>
                    (\<exists>t < length (rewards (sampled_traj c idx i)).
                       out_timesteps b ! i ! j = int t + 1 \<and> 0 < out_timesteps b ! i ! j \<and>
                       out_a b ! i ! j = actions (sampled_traj c idx i) ! t \<and>
                       out_r b ! i ! j = [rewards (sampled_traj c idx i) ! t]))))"
proof -
  let ?b = "window_batch c idx start batch_size max_len"
  have row: "length (out_s ?b ! i) = max_len \<and> length (out_a ?b ! i) = max_len \<and>
              length (out_r ?b ! i) = max_len \<and> length (out_d ?b ! i) = max_len \<and>
              length (out_rtg ?b ! i) = max_len \<and> length (out_timesteps ?b ! i) = max_len \<and>
              length (out_mask ?b ! i) = max_len \<and>
              (\<forall>j < max_len.
                 (\<not> out_mask ?b ! i ! j \<longrightarrow>
                    out_a ?b ! i ! j = replicate (cl_act_dim c) (- 10) \<and>
                    out_d ?b ! i ! j = [2] \<and> out_timesteps ?b ! i ! j = 0) \<and>
                 (out_mask ?b ! i ! j \<longrightarrow>
                    (\<exists>t < length (rewards (sampled_traj c idx i)).
                       out_timesteps ?b ! i ! j = int t + 1 \<and> 0 < out_timesteps ?b ! i ! j \<and>
                       out_a ?b ! i ! j = actions (sampled_traj c idx i) ! t \<and>
                       out_r ?b ! i ! j = [rewards (sampled_traj c idx i) ! t])))"
    if i: "i < batch_size" for i
  proof -
    note st = valid_drawsD(2) [OF assms(2) i]
    let ?pad = "max_len - window_len max_len (start i) (length (rewards (sampled_traj c idx i)))"
    have ent: "(\<not> out_mask ?b ! i ! j \<longrightarrow>
                    out_a ?b ! i ! j = replicate (cl_act_dim c) (- 10) \<and>
                    out_d ?b ! i ! j = [2] \<and> out_timesteps ?b ! i ! j = 0) \<and>
                 (out_mask ?b ! i ! j \<longrightarrow>
                    (\<exists>t < length (rewards (sampled_traj c idx i)).
                       out_timesteps ?b ! i ! j = int t + 1 \<and> 0 < out_timesteps ?b ! i ! j \<and>
                       out_a ?b ! i ! j = actions (sampled_traj c idx i) ! t \<and>
                       out_r ?b ! i ! j = [rewards (sampled_traj c idx i) ! t]))"
      if j: "j < max_len" for j
    proof (cases "?pad \<le> j")
      case True
      then have m: "out_mask ?b ! i ! j" using window_batch_mask_entry [where start = start and i = i and c = c and idx = idx, OF i st j] by simp
      note ve = window_batch_valid_entry [where start = start and i = i and c = c and idx = idx, OF i st j True]
      have "0 < out_timesteps ?b ! i ! j" using ve(2) by simp
      then show ?thesis using m ve by blast
    next
      case False
      then have jp: "j < ?pad" by simp
      have m: "\<not> out_mask ?b ! i ! j" using window_batch_mask_entry [where start = start and i = i and c = c and idx = idx, OF i st j] False by simp
      show ?thesis using m window_batch_pad_entry(1,2,3) [where start = start and i = i and c = c and idx = idx, OF i jp] by simp
    qed
    show ?thesis using window_batch_row_lengths [where start = start and i = i and c = c and idx = idx and max_len = max_len, OF i st] ent by blast
  qed
  have "get_batch c idx start batch_size max_len = Inr ?b"
    by (rule get_batch_ok [OF assms])
  moreover note window_batch_lengths [of c idx start batch_size max_len]
  ultimately show ?thesis using row by blast
qed

lemma zero_closure_stats:
  "cl_state_mean zero_closure = state_mean_of 1 [traj_Z]"
  "cl_state_std zero_closure = state_std_of 1 [traj_Z]"
  by (simp_all add: zero_closure_def state_mean_of_def state_std_of_def all_states_def traj_Z_def)

lemma zero_closure_wf: "wf_closure zero_closure"
  by (simp add: wf_closure_def wf_traj_def zero_closure_def traj_Z_def)

lemma zero_draws_valid: "valid_draws zero_closure first_traj start_at_3 1"
  by (simp add: valid_draws_def zero_closure_def traj_Z_def first_traj_def start_at_3_def
      sampled_traj_def randint_outcomes_def)

lemma zero_get_batch:
  "get_batch zero_closure first_traj start_at_3 1 2 = Inr zero_batch"
  unfolding get_batch_ok [OF zero_closure_wf zero_draws_valid]
  by (simp add: window_batch_def window_row_def window_len_def padded_timesteps_def
      sampled_traj_def zero_closure_def traj_Z_def first_traj_def start_at_3_def
      zero_batch_def normalize_state_def expand_dims_def Let_def)

theorem batch_shape_and_padding_witness:
  "wf_closure example_closure \<and> valid_draws example_closure first_traj start_at_3 1 \<and>
   (\<exists>b. get_batch example_closure first_traj start_at_3 1 2 = Inr b \<and>
        length (out_a b) = 1 \<and> length (out_a b ! 0) = 2 \<and>
        out_a b ! 0 ! 0 = [- 10] \<and> out_d b ! 0 ! 0 = [2] \<and> out_timesteps b ! 0 ! 0 = 0 \<and>
        0 < out_timesteps b ! 0 ! 1)"
proof -
  from batch_shape_and_padding [OF example_closure_wf example_draws_valid, of 2]
  obtain b where b: "get_batch example_closure first_traj start_at_3 1 2 = Inr b"
    and l: "length (out_a b) = 1"
    and r: "\<forall>i < 1. length (out_a b ! i) = 2 \<and>
              (\<forall>j < 2.
                 (\<not> out_mask b ! i ! j \<longrightarrow>
                    out_a b ! i ! j = replicate (cl_act_dim example_closure) (- 10) \<and>
                    out_d b ! i ! j = [2] \<and> out_timesteps b ! i ! j = 0) \<and>
                 (out_mask b ! i ! j \<longrightarrow>
                    (\<exists>t < length (rewards (sampled_traj example_closure first_traj i)).
                       out_timesteps b ! i ! j = int t + 1 \<and> 0 < out_timesteps b ! i ! j \<and>
                       out_a b ! i ! j = actions (sampled_traj example_closure first_traj i) ! t \<and>
                       out_r b ! i ! j = [rewards (sampled_traj example_closure first_traj i) ! t])))"
    by blast
  have eb: "b = example_batch" using b example_get_batch by simp
  have m0: "\<not> out_mask b ! 0 ! 0" and m1: "out_mask b ! 0 ! 1"
    by (simp_all add: eb example_batch_def)
  from r have r0: "length (out_a b ! 0) = 2" by simp
  from r m0 have p: "out_a b ! 0 ! 0 = replicate (cl_act_dim example_closure) (- 10) \<and>
      out_d b ! 0 ! 0 = [2] \<and> out_timesteps b ! 0 ! 0 = 0"
    by (metis zero_less_one zero_less_numeral)
  from r m1 have q: "0 < out_timesteps b ! 0 ! 1"
    by (metis zero_less_one one_less_numeral_iff semiring_norm(76))
  have "replicate (cl_act_dim example_closure) (- 10 :: real) = [- 10]"
    by (simp add: example_closure_def)
  then show ?thesis using b l r0 p q example_closure_wf example_draws_valid by auto
qed

text \<open>
  Claim C9. For every raw output of the generator, \<open>random.randint(0, L - 1)\<close> with the
  length \<open>L\<close> of the sampled trajectory returns the start offset \<open>start\<close> in \<open>[0, L)\<close>, the
  residue of the raw output modulo \<open>L\<close>, and every offset of \<open>[0, L)\<close> is returned for the
  raw outputs of one residue. The window is \<open>[start, end)\<close> with
  \<open>end = min(start + max_len, L)\<close>, which is at most \<open>L\<close>; every index of the window is
  within each of the five arrays of the trajectory; \<open>get_batch\<close> returns a batch with one row
  per draw instead of raising IndexError, and the row holds, after its padding, the
  entries of the trajectory at the indices of the window and the time steps
  \<open>start + 1, ..., end\<close>.
\<close>

theorem window_within_trajectory:
  assumes "wf_closure c" and "valid_sources c idx batch_size"
  shows "\<exists>b. get_batch c idx draw batch_size max_len = Inr b \<and>
           length (out_s b) = batch_size \<and> length (out_a b) = batch_size \<and>
           length (out_r b) = batch_size \<and> length (out_d b) = batch_size \<and>
           length (out_rtg b) = batch_size \<and> length (out_timesteps b) = batch_size \<and>
           (\<forall>i < batch_size. \<exists>start end_idx.
              (let traj = sampled_traj c idx i;
                   batch_len = length (rewards traj);
                   pad = max_len - (end_idx - start)
               in randint (draw i) 0 (int batch_len - 1) = Inr (int start) \<and>
                  start = draw i mod batch_len \<and>
                  (\<forall>u < batch_len. randint u 0 (int batch_len - 1) = Inr (int u)) \<and>
                  start < batch_len \<and>
                  end_idx = min (start + max_len) batch_len \<and>
                  end_idx \<le> batch_len \<and>
                  (\<forall>t \<in> set [start ..< end_idx].
                     t < length (observations traj) \<and> t < length (actions traj) \<and>
                     t < length (rewards traj) \<and> t < length (dones traj) \<and>
                     t < length (rtg traj)) \<and>
                  out_timesteps b ! i =
                    replicate pad 0 @ map (\<lambda>t. int t + 1) [start ..< end_idx] \<and>
                  out_s b ! i =
                    map (normalize_state (cl_state_mean c) (cl_state_std c))
                      (replicate pad (replicate (cl_state_dim c) 0) @
                       map (\<lambda>t. observations traj ! t) [start ..< end_idx]) \<and>
                  out_a b ! i =
                    replicate pad (replicate (cl_act_dim c) (- 10)) @
                    map (\<lambda>t. actions traj ! t) [start ..< end_idx] \<and>
                  out_r b ! i =
                    map (\<lambda>v. [v]) (replicate pad 0 @
                      map (\<lambda>t. rewards traj ! t) [start ..< end_idx]) \<and>
                  out_d b ! i =
                    map (\<lambda>v. [v]) (replicate pad 2 @
                      map (\<lambda>t. of_bool (dones traj ! t)) [start ..< end_idx]) \<and>
                  out_rtg b ! i =
                    map (\<lambda>v. [v]) (replicate pad 0 @
                      map (\<lambda>t. rtg traj ! t / cl_scale c) [start ..< end_idx])))"
proof -
  let ?tr = "sampled_traj c idx"
  let ?L = "\<lambda>i. length (rewards (?tr i))"
  let ?s = "\<lambda>i. draw i mod ?L i"
  let ?b = "window_batch c idx ?s batch_size max_len"
  have gb: "get_batch c idx draw batch_size max_len = Inr ?b"
    by (rule get_batch_mod [OF assms])
  have row: "\<exists>start end_idx.
              (let traj = sampled_traj c idx i;
                   batch_len = length (rewards traj);
                   pad = max_len - (end_idx - start)
               in randint (draw i) 0 (int batch_len - 1) = Inr (int start) \<and>
                  start = draw i mod batch_len \<and>
                  (\<forall>u < batch_len. randint u 0 (int batch_len - 1) = Inr (int u)) \<and>
                  start < batch_len \<and>
                  end_idx = min (start + max_len) batch_len \<and>
                  end_idx \<le> batch_len \<and>
                  (\<forall>t \<in> set [start ..< end_idx].
                     t < length (observations traj) \<and> t < length (actions traj) \<and>
                     t < length (rewards traj) \<and> t < length (dones traj) \<and>
                     t < length (rtg traj)) \<and>
                  out_timesteps ?b ! i =
                    replicate pad 0 @ map (\<lambda>t. int t + 1) [start ..< end_idx] \<and>
                  out_s ?b ! i =
                    map (normalize_state (cl_state_mean c) (cl_state_std c))
                      (replicate pad (replicate (cl_state_dim c) 0) @
                       map (\<lambda>t. observations traj ! t) [start ..< end_idx]) \<and>
                  out_a ?b ! i =
                    replicate pad (replicate (cl_act_dim c) (- 10)) @
                    map (\<lambda>t. actions traj ! t) [start ..< end_idx] \<and>
                  out_r ?b ! i =
                    map (\<lambda>v. [v]) (replicate pad 0 @
                      map (\<lambda>t. rewards traj ! t) [start ..< end_idx]) \<and>
                  out_d ?b ! i =
                    map (\<lambda>v. [v]) (replicate pad 2 @
                      map (\<lambda>t. of_bool (dones traj ! t)) [start ..< end_idx]) \<and>
                  out_rtg ?b ! i =
                    map (\<lambda>v. [v]) (replicate pad 0 @
                      map (\<lambda>t. rtg traj ! t / cl_scale c) [start ..< end_idx]))"
    if i: "i < batch_size" for i
  proof -
    note pos = valid_sourcesD(2) [OF assms(2) i]
    have st: "?s i < ?L i" using pos by simp
    note wft = sampled_traj_wf_sources(2) [OF assms i]
    have e: "min (?s i + max_len) (?L i) = ?s i + window_len max_len (?s i) (?L i)"
      by (rule window_facts(1) [OF st])
    have n: "min (?s i + max_len) (?L i) - ?s i = window_len max_len (?s i) (?L i)"
      by (simp add: window_len_def)
    have r1: "randint (draw i) 0 (int (?L i) - 1) = Inr (int (?s i))"
      using pos by (rule randint_mod)
    have r2: "\<forall>u < ?L i. randint u 0 (int (?L i) - 1) = Inr (int u)"
      using pos by (simp add: randint_mod)
    have bnd: "\<forall>t \<in> set [?s i ..< min (?s i + max_len) (?L i)].
                 t < length (observations (?tr i)) \<and> t < length (actions (?tr i)) \<and>
                 t < length (rewards (?tr i)) \<and> t < length (dones (?tr i)) \<and>
                 t < length (rtg (?tr i))"
      using wft by (simp add: wf_traj_def)
    note rows = window_batch_rows [OF i, of c idx ?s max_len]
    have le: "min (?s i + max_len) (?L i) \<le> ?L i" by simp
    show ?thesis
      apply (rule exI [of _ "?s i"])
      apply (rule exI [of _ "min (?s i + max_len) (?L i)"])
      unfolding Let_def n
      apply (intro conjI)
                   apply (rule r1)
                  apply (rule refl)
                 apply (rule r2)
               apply (rule st)
              apply (rule refl)
             apply (rule le)
            apply (rule bnd)
      unfolding e
           apply (rule rows(6))
          apply (rule rows(7))
         apply (rule rows(2))
        apply (rule rows(3))
       apply (rule rows(4))
      apply (rule rows(5))
      done
  qed
  have "length (out_s ?b) = batch_size \<and> length (out_a ?b) = batch_size \<and>
           length (out_r ?b) = batch_size \<and> length (out_d ?b) = batch_size \<and>
           length (out_rtg ?b) = batch_size \<and> length (out_timesteps ?b) = batch_size"
    using window_batch_lengths [of c idx ?s batch_size max_len] by simp
  then show ?thesis using gb row by blast
qed

theorem window_within_trajectory_witness:
  "wf_closure example_closure \<and> valid_sources example_closure first_traj 1 \<and>
   length (rewards (sampled_traj example_closure first_traj 0)) = 4 \<and>
   raw_output_7 0 = 7 \<and>
   randint (raw_output_7 0) 0 3 = Inr 3 \<and>
   get_batch example_closure first_traj raw_output_7 1 2 = Inr example_batch \<and>
   out_timesteps example_batch ! 0 = [0, 4] \<and>
   out_r example_batch ! 0 = [[0], [rewards traj_C ! 3]]"
proof -
  have L: "length (rewards (sampled_traj example_closure first_traj 0)) = 4"
    and T: "sampled_traj example_closure first_traj 0 = traj_C"
    by (simp_all add: sampled_traj_def example_closure_def traj_C_def first_traj_def)
  have raw: "raw_output_7 0 = 7" by (simp add: raw_output_7_def)
  from window_within_trajectory [OF example_closure_wf example_sources_valid, of raw_output_7 2]
  obtain b where b: "get_batch example_closure first_traj raw_output_7 1 2 = Inr b"
    and rows: "\<And>i. i < 1 \<Longrightarrow> \<exists>start end_idx.
              (let traj = sampled_traj example_closure first_traj i;
                   batch_len = length (rewards traj);
                   pad = 2 - (end_idx - start)
               in randint (raw_output_7 i) 0 (int batch_len - 1) = Inr (int start) \<and>
                  start = raw_output_7 i mod batch_len \<and>
                  (\<forall>u < batch_len. randint u 0 (int batch_len - 1) = Inr (int u)) \<and>
                  start < batch_len \<and>
                  end_idx = min (start + 2) batch_len \<and>
                  end_idx \<le> batch_len \<and>
                  (\<forall>t \<in> set [start ..< end_idx].
                     t < length (observations traj) \<and> t < length (actions traj) \<and>
                     t < length (rewards traj) \<and> t < length (dones traj) \<and>
                     t < length (rtg traj)) \<and>
                  out_timesteps b ! i =
                    replicate pad 0 @ map (\<lambda>t. int t + 1) [start ..< end_idx] \<and>
                  out_s b ! i =
                    map (normalize_state (cl_state_mean example_closure) (cl_state_std example_closure))
                      (replicate pad (replicate (cl_state_dim example_closure) 0) @
                       map (\<lambda>t. observations traj ! t) [start ..< end_idx]) \<and>
                  out_a b ! i =
                    replicate pad (replicate (cl_act_dim example_closure) (- 10)) @
                    map (\<lambda>t. actions traj ! t) [start ..< end_idx] \<and>
                  out_r b ! i =
                    map (\<lambda>v. [v]) (replicate pad 0 @
                      map (\<lambda>t. rewards traj ! t) [start ..< end_idx]) \<and>
                  out_d b ! i =
                    map (\<lambda>v. [v]) (replicate pad 2 @
                      map (\<lambda>t. of_bool (dones traj ! t)) [start ..< end_idx]) \<and>
                  out_rtg b ! i =
                    map (\<lambda>v. [v]) (replicate pad 0 @
                      map (\<lambda>t. rtg traj ! t / cl_scale example_closure) [start ..< end_idx]))"
    by blast
  have L': "length (rewards traj_C) = 4" by (simp add: traj_C_def)
  from rows [OF zero_less_one] obtain start end_idx
    where r1: "randint (raw_output_7 0) 0 (int 4 - 1) = Inr (int start)"
      and s: "start = raw_output_7 0 mod 4"
      and e: "end_idx = min (start + 2) 4"
      and ts: "out_timesteps b ! 0 =
                 replicate (2 - (end_idx - start)) 0 @ map (\<lambda>t. int t + 1) [start ..< end_idx]"
      and rs: "out_r b ! 0 =
                 map (\<lambda>v. [v]) (replicate (2 - (end_idx - start)) 0 @
                   map (\<lambda>t. rewards traj_C ! t) [start ..< end_idx])"
    unfolding Let_def T L' by blast
  have s3: "start = 3" using s unfolding raw by simp
  have e4: "end_idx = 4" using e unfolding s3 by simp
  have u: "[3 ..< 4] = [3::nat]" by (simp add: upt_conv_Cons eval_nat_numeral)
  have eb: "b = example_batch" using b example_get_batch_raw by simp
  have "randint (raw_output_7 0) 0 3 = Inr 3" using r1 unfolding s3 by simp
  moreover have "out_timesteps example_batch ! 0 = [0, 4]"
    using ts unfolding s3 e4 eb u by simp
  moreover have "out_r example_batch ! 0 = [[0], [rewards traj_C ! 3]]"
    using rs unfolding s3 e4 eb u by simp
  ultimately show ?thesis
    using b eb L raw example_closure_wf example_sources_valid by simp
qed

text \<open>
  Claim C10 as stated: the padded state slots are not zero vectors. It fails when the
  observation mean is zero: for a dataset whose observations are all zero, the mean is
  \<open>0\<close>, the standard deviation is \<open>1e-6\<close>, and a padded slot is \<open>(0 - 0) / 1e-6 = 0\<close>.
\<close>

theorem padded_states_nonzero_counterexample:
  "wf_closure zero_closure \<and> valid_draws zero_closure first_traj start_at_3 1 \<and>
   cl_state_mean zero_closure = state_mean_of 1 (cl_trajectories zero_closure) \<and>
   cl_state_std zero_closure = state_std_of 1 (cl_trajectories zero_closure) \<and>
   get_batch zero_closure first_traj start_at_3 1 2 = Inr zero_batch \<and>
   out_mask zero_batch ! 0 ! 0 = False \<and>
   out_s zero_batch ! 0 ! 0 = replicate (cl_state_dim zero_closure) 0"
  using zero_closure_wf zero_draws_valid zero_get_batch zero_closure_stats
  by (simp add: zero_batch_def zero_closure_def)

text \<open>
  Claim C10, amended. Normalisation is applied to the whole pre-allocated array, so every
  masked-false state slot equals \<open>(0 - state_mean) / state_std\<close> elementwise; it is the
  zero vector exactly when every entry of \<open>state_mean\<close> is zero.
\<close>

theorem padded_states_normalised:
  assumes "wf_closure c" and "valid_draws c idx start batch_size"
  shows "\<exists>b. get_batch c idx start batch_size max_len = Inr b \<and>
           (\<forall>i < batch_size. \<forall>j < max_len.
              \<not> out_mask b ! i ! j \<longrightarrow>
                out_s b ! i ! j =
                  map (\<lambda>(m, sd). (0 - m) / sd) (zip (cl_state_mean c) (cl_state_std c)) \<and>
                (out_s b ! i ! j = replicate (cl_state_dim c) 0 \<longleftrightarrow>
                   (\<forall>m \<in> set (cl_state_mean c). m = 0)))"
proof -
  let ?b = "window_batch c idx start batch_size max_len"
  let ?z = "map (\<lambda>(m, sd). (0 - m) / sd) (zip (cl_state_mean c) (cl_state_std c))"
  from assms(1) have lm: "length (cl_state_mean c) = cl_state_dim c"
    and ls: "length (cl_state_std c) = cl_state_dim c"
    and pos: "\<forall>sd \<in> set (cl_state_std c). 0 < sd"
    by (simp_all add: wf_closure_def)
  have "out_s ?b ! i ! j = ?z \<and>
        (out_s ?b ! i ! j = replicate (cl_state_dim c) 0 \<longleftrightarrow> (\<forall>m \<in> set (cl_state_mean c). m = 0))"
    if i: "i < batch_size" and j: "j < max_len" and m: "\<not> out_mask ?b ! i ! j" for i j
  proof -
    note st = valid_drawsD(2) [OF assms(2) i]
    have jp: "j < max_len - window_len max_len (start i) (length (rewards (sampled_traj c idx i)))"
      using window_batch_mask_entry [where start = start and i = i and c = c and idx = idx, OF i st j] m
      by simp
    have "out_s ?b ! i ! j = ?z"
      using window_batch_pad_entry(4) [where start = start and i = i and c = c and idx = idx, OF i jp]
      by (simp add: normalize_state_zero [OF lm ls])
    then show ?thesis using normalised_zero_is_zero_iff [OF lm ls pos] by simp
  qed
  then show ?thesis using get_batch_ok [OF assms, of max_len] by blast
qed

theorem padded_states_normalised_witness:
  "wf_closure example_closure \<and> valid_draws example_closure first_traj start_at_3 1 \<and>
   (\<exists>b. get_batch example_closure first_traj start_at_3 1 2 = Inr b \<and>
        \<not> out_mask b ! 0 ! 0 \<and> out_s b ! 0 ! 0 = [(0 - 2) / (1000001 / 1000000)] \<and>
        out_s b ! 0 ! 0 \<noteq> [0])"
proof -
  from padded_states_normalised [OF example_closure_wf example_draws_valid, of 2]
  obtain b where b: "get_batch example_closure first_traj start_at_3 1 2 = Inr b"
    and r: "\<forall>i < 1. \<forall>j < 2.
              \<not> out_mask b ! i ! j \<longrightarrow>
                out_s b ! i ! j =
                  map (\<lambda>(m, sd). (0 - m) / sd)
                    (zip (cl_state_mean example_closure) (cl_state_std example_closure))"
    by blast
  have eb: "b = example_batch" using b example_get_batch by simp
  have m0: "\<not> out_mask b ! 0 ! 0" by (simp add: eb example_batch_def)
  from r m0 have "out_s b ! 0 ! 0 =
      map (\<lambda>(m, sd). (0 - m) / sd) (zip (cl_state_mean example_closure) (cl_state_std example_closure))"
    by (metis zero_less_one zero_less_numeral)
  then have s: "out_s b ! 0 ! 0 = [(0 - 2) / (1000001 / 1000000)]"
    by (simp add: example_closure_def)
  then have "out_s b ! 0 ! 0 \<noteq> [0]" by simp
  then show ?thesis using b m0 s example_closure_wf example_draws_valid by blast
qed

section \<open>Properties of \<open>eval_ep_parallel\<close>\<close>

lemma eval_init_ok:
  assumes "evaluator_ok P"
  shows "\<exists>st0. eval_init P target_rew = Inr st0 \<and> rollout_inv P st0 \<and>
               ro_timesteps st0 = [1] \<and>
               (\<forall>e < ev_num_eval_episodes P.
                  \<not> episode_done st0 e \<and> ro_episode_return st0 ! e = 0 \<and>
                  ro_episode_length st0 ! e = 0)"
  using assms
  by (simp add: evaluator_ok_def eval_init_def rollout_inv_def episode_done_def Let_def)

lemma eval_step_ok:
  assumes ok: "evaluator_ok P" and inv: "rollout_inv P st"
  shows "\<exists>st'. eval_step P t st = Inr st' \<and> rollout_inv P st' \<and>
           ro_timesteps st' = ro_timesteps st @ [real (t + 2)] \<and>
           (\<forall>e < ev_num_eval_episodes P.
              episode_done st' e = (episode_done st e \<or> ts_last (step_time_steps P st ! e)) \<and>
              ro_episode_return st' ! e =
                ro_episode_return st ! e +
                (if episode_done st' e then 0 else ts_reward (step_time_steps P st ! e)) \<and>
              ro_episode_length st' ! e =
                ro_episode_length st ! e + (if episode_done st' e then 0 else 1) \<and>
              ro_rewards st' ! e = ro_rewards st ! e @ [ts_reward (step_time_steps P st ! e)]) \<and>
           map last (ro_actions st') = model_answer P st (ro_timesteps st)"
proof -
  let ?n = "ev_num_eval_episodes P"
  let ?acts0 = "map (\<lambda>row. row @ [replicate (ev_act_dim P) 0]) (ro_actions st)"
  let ?rews0 = "map (\<lambda>row. row @ [0]) (ro_rewards st)"
  let ?na = "ev_get_batch_action P
               (map (map (normalize_state (ev_state_mean P) (ev_state_std P))) (ro_states st))
               ?acts0 ?rews0 (ro_target_returns st) (ro_timesteps st)"
  let ?tss = "map (\<lambda>(env, action). ev_step P env action) (zip (ro_envs st) ?na)"
  from ok have b1: "broadcast_to (ev_state_dim P) (ev_state_mean P) = Inr (ev_state_mean P)"
    and b2: "broadcast_to (ev_state_dim P) (ev_state_std P) = Inr (ev_state_std P)"
    by (simp_all add: evaluator_ok_def broadcast_to_def)
  from ok have na: "length ?na = ?n" "\<forall>x \<in> set ?na. length x = ev_act_dim P"
    by (simp_all add: evaluator_ok_def)
  from ok have obs: "\<forall>s \<in> set (map (\<lambda>r. ts_observation (snd r)) ?tss). length s = ev_state_dim P"
    by (auto simp: evaluator_ok_def)
  from inv have le: "length (ro_envs st) = ?n" and ld: "length (ro_dones st) = ?n"
    and l1: "\<forall>row \<in> set (ro_dones st). length row = 1"
    and ls: "length (ro_states st) = ?n" and la: "length (ro_actions st) = ?n"
    and lr: "length (ro_rewards st) = ?n" and lg: "length (ro_target_returns st) = ?n"
    and lret: "length (ro_episode_return st) = ?n" and llen: "length (ro_episode_length st) = ?n"
    by (simp_all add: rollout_inv_def)
  have ltss: "length ?tss = ?n" using le na(1) by simp
  let ?nd = "map (\<lambda>(row, d). last row \<or> d) (zip (ro_dones st) (map (\<lambda>r. ts_last (snd r)) ?tss))"
  let ?nr = "map (\<lambda>r. ts_reward (snd r)) ?tss"
  let ?st' = "\<lparr>ro_envs = map fst ?tss,
      ro_dones = map (\<lambda>(row, d). butlast row @ [d]) (zip (ro_dones st) ?nd),
      ro_states = map (\<lambda>(row, s). row @ [s]) (zip (ro_states st) (map (\<lambda>r. ts_observation (snd r)) ?tss)),
      ro_actions = map (\<lambda>(row, a). butlast row @ [a]) (zip ?acts0 ?na),
      ro_rewards = map (\<lambda>(row, r). butlast row @ [r]) (zip ?rews0 ?nr),
      ro_target_returns = map (\<lambda>(row, p). row @ [p]) (zip (ro_target_returns st)
          (if ev_mode P \<noteq> ''delayed''
           then map (\<lambda>(row, r). last row - r / ev_scale P) (zip (ro_target_returns st) ?nr)
           else map last (ro_target_returns st))),
      ro_timesteps = ro_timesteps st @ [real (t + 2)],
      ro_episode_return = map (\<lambda>(ret, d, r). ret + (if d then 0 else r))
                             (zip (ro_episode_return st) (zip ?nd ?nr)),
      ro_episode_length = map (\<lambda>(len, d). len + (if d then 0 else 1))
                             (zip (ro_episode_length st) ?nd)\<rparr>"
  have step: "eval_step P t st = Inr ?st'"
    using na obs unfolding eval_step_def Let_def b1 b2 and_then_simps by auto
  have lnd: "length ?nd = ?n" using ld ltss by simp
  have rows: "\<forall>row \<in> set (ro_dones ?st'). length row = 1"
    using l1 by (auto dest!: set_zip_leftD)
  have inv': "rollout_inv P ?st'"
    unfolding rollout_inv_def using rows le ld ls la lr lg lret llen ltss lnd na(1)
    by simp
  have tsig: "step_time_steps P st ! e = snd (?tss ! e)" if "e < ?n" for e
    using that ltss le na(1)
    by (simp add: step_time_steps_def Let_def split_beta)
  have per: "episode_done ?st' e = (episode_done st e \<or> ts_last (step_time_steps P st ! e)) \<and>
              ro_episode_return ?st' ! e =
                ro_episode_return st ! e +
                (if episode_done ?st' e then 0 else ts_reward (step_time_steps P st ! e)) \<and>
              ro_episode_length ?st' ! e =
                ro_episode_length st ! e + (if episode_done ?st' e then 0 else 1) \<and>
              ro_rewards ?st' ! e = ro_rewards st ! e @ [ts_reward (step_time_steps P st ! e)]"
    if e: "e < ?n" for e
  proof -
    have "ro_dones st ! e \<in> set (ro_dones st)" using e ld by simp
    then have "length (ro_dones st ! e) = 1" using l1 by blast
    then obtain d0 where d0: "ro_dones st ! e = [d0]"
      by (cases "ro_dones st ! e") auto
    have nde: "?nd ! e = (d0 \<or> ts_last (snd (?tss ! e)))"
      using e ld ltss d0 by simp
    have done': "episode_done ?st' e = (d0 \<or> ts_last (snd (?tss ! e)))"
      using e ld lnd d0 nde by (simp add: episode_done_def)
    have done0: "episode_done st e = d0" using d0 by (simp add: episode_done_def)
    have ret: "ro_episode_return ?st' ! e =
                 ro_episode_return st ! e + (if ?nd ! e then 0 else ts_reward (snd (?tss ! e)))"
      using e lret lnd ltss by simp
    have len: "ro_episode_length ?st' ! e =
                 ro_episode_length st ! e + (if ?nd ! e then 0 else 1)"
      using e llen lnd by simp
    have rew: "ro_rewards ?st' ! e = ro_rewards st ! e @ [ts_reward (snd (?tss ! e))]"
      using e lr ltss by simp
    show ?thesis
      unfolding done' tsig [OF e] using done0 nde ret len rew by simp
  qed
  have acts: "map last (ro_actions ?st') = model_answer P st (ro_timesteps st)"
    using la na(1) by (simp add: model_answer_def list_eq_iff_nth_eq)
  show ?thesis using step inv' per acts by (intro exI [of _ ?st']) simp
qed

lemma upt_0_5: "[0 ..< 5] = [0, 1, 2, 3, 4]"
  by (simp add: upt_conv_Cons eval_nat_numeral)

lemma example_evaluator_ok: "0 < n \<Longrightarrow> evaluator_ok (example_evaluator n)"
  by (simp add: evaluator_ok_def example_evaluator_def zero_policy_def counting_step_def
      counting_reset_def)

lemma example_eval_final: "eval_final (example_evaluator 1) 3600 = Inr example_final"
  by (simp add: eval_final_def eval_init_def eval_step_def all_done_def example_evaluator_def
      example_final_def zero_policy_def counting_step_def counting_reset_def broadcast_to_def
      normalize_state_def upt_0_5 Let_def)

lemma example_eval_ep_parallel:
  "eval_ep_parallel (example_evaluator 1) 3600 =
     Inr \<lparr>return_mean = 2, return_std = 0, length_mean = 2, length_std = 0\<rparr>"
  unfolding eval_ep_parallel_def example_eval_final
  by (simp add: example_final_def reduce_mean_def reduce_std_def)

lemma replicate_2: "replicate 2 x = [x, x]"
  by (simp add: numeral_2_eq_2)

lemma upt_0_2: "[0 ..< 2] = [0, 1]"
  by (simp add: upt_conv_Cons eval_nat_numeral)

lemma example_eval_init2: "eval_init (example_evaluator 2) 3600 = Inr example_init2"
  by (simp add: eval_init_def example_evaluator_def example_init2_def counting_reset_def
      upt_0_2 replicate_2 Let_def)

lemma example_eval_trace2:
  "eval_trace (example_evaluator 2) [0 ..< 5] example_init2 = Inr example_trace2"
  by (simp add: eval_step_def all_done_def example_evaluator_def
      example_init2_def example_trace2_def zero_policy_def counting_step_def counting_reset_def
      broadcast_to_def normalize_state_def upt_0_5 replicate_2 Let_def)

lemma clock_evaluator_ok: "0 < n \<Longrightarrow> evaluator_ok (clock_evaluator n)"
  by (simp add: evaluator_ok_def clock_evaluator_def example_evaluator_def clock_policy_def
      counting_step_def counting_reset_def)

lemma clock_eval_final: "eval_final (clock_evaluator 2) 3600 = Inr clock_final"
  by (simp add: eval_final_def eval_init_def eval_step_def all_done_def clock_evaluator_def
      example_evaluator_def clock_final_def clock_policy_def counting_step_def counting_reset_def
      broadcast_to_def normalize_state_def upt_0_5 upt_0_2 replicate_2 Let_def)

lemma eval_loop_trace:
  "eval_loop P ts st = and_then (eval_trace P ts st) (\<lambda>tr. Inr (last (st # tr)))"
proof (induction ts arbitrary: st)
  case Nil
  show ?case by simp
next
  case (Cons t ts)
  show ?case
  proof (cases "eval_step P t st")
    case (Inl e)
    then show ?thesis by simp
  next
    case (Inr st')
    show ?thesis
    proof (cases "all_done st'")
      case True
      then show ?thesis using Inr by simp
    next
      case False
      show ?thesis
      proof (cases "eval_trace P ts st'")
        case (Inl e)
        then show ?thesis using Inr False Cons.IH [of st'] by simp
      next
        case tr: (Inr tr)
        then show ?thesis using Inr False Cons.IH [of st'] by simp
      qed
    qed
  qed
qed

lemma eval_trace_ok:
  assumes ok: "evaluator_ok P"
  shows "rollout_inv P st \<Longrightarrow>
         \<exists>tr. eval_trace P ts st = Inr tr \<and> length tr \<le> length ts \<and>
              (\<forall>i < length tr. rollout_inv P (tr ! i) \<and>
                  eval_step P (ts ! i) ((st # tr) ! i) = Inr (tr ! i)) \<and>
              (\<forall>i. i + 1 < length tr \<longrightarrow> \<not> all_done (tr ! i)) \<and>
              (length tr < length ts \<longrightarrow> tr \<noteq> [] \<and> all_done (last tr))"
proof (induction ts arbitrary: st)
  case Nil
  show ?case by simp
next
  case (Cons t ts)
  from eval_step_ok [OF ok Cons.prems, of t]
  obtain st' where st': "eval_step P t st = Inr st'" and inv': "rollout_inv P st'" by blast
  show ?case
  proof (cases "all_done st'")
    case True
    have "eval_trace P (t # ts) st = Inr [st']" using st' True by simp
    moreover have "\<forall>i < length [st']. rollout_inv P ([st'] ! i) \<and>
                  eval_step P ((t # ts) ! i) ((st # [st']) ! i) = Inr ([st'] ! i)"
      using st' inv' by simp
    ultimately show ?thesis using True by (intro exI [of _ "[st']"]) simp
  next
    case False
    from Cons.IH [OF inv']
    obtain tr where tr: "eval_trace P ts st' = Inr tr" and len: "length tr \<le> length ts"
      and stp: "\<forall>i < length tr. rollout_inv P (tr ! i) \<and>
                  eval_step P (ts ! i) ((st' # tr) ! i) = Inr (tr ! i)"
      and nd: "\<forall>i. i + 1 < length tr \<longrightarrow> \<not> all_done (tr ! i)"
      and fin: "length tr < length ts \<longrightarrow> tr \<noteq> [] \<and> all_done (last tr)"
      by blast
    have 1: "eval_trace P (t # ts) st = Inr (st' # tr)" using st' False tr by simp
    have 2: "rollout_inv P ((st' # tr) ! i) \<and>
             eval_step P ((t # ts) ! i) ((st # st' # tr) ! i) = Inr ((st' # tr) ! i)"
      if "i < length (st' # tr)" for i
      using that st' inv' stp by (cases i) simp_all
    have 3: "\<not> all_done ((st' # tr) ! i)" if "i + 1 < length (st' # tr)" for i
      using that False nd by (cases i) simp_all
    have 4: "length (st' # tr) < length (t # ts) \<longrightarrow>
             st' # tr \<noteq> [] \<and> all_done (last (st' # tr))"
      using fin by auto
    show ?thesis using 1 2 3 4 len by (intro exI [of _ "st' # tr"]) simp
  qed
qed

lemma trace_timesteps:
  assumes ok: "evaluator_ok P" and inv0: "rollout_inv P st0" and t0: "ro_timesteps st0 = [1]"
    and stp: "\<forall>i < length tr. rollout_inv P (tr ! i) \<and>
                  eval_step P i ((st0 # tr) ! i) = Inr (tr ! i)"
  shows "k \<le> length tr \<Longrightarrow> ro_timesteps ((st0 # tr) ! k) = map real [1 ..< k + 2]"
proof (induction k)
  case 0
  show ?case using t0 by (simp add: upt_rec)
next
  case (Suc k)
  then have k: "k < length tr" by simp
  have invk: "rollout_inv P ((st0 # tr) ! k)"
    using inv0 stp k by (cases k) simp_all
  from eval_step_ok [OF ok invk, of k] stp k
  have "ro_timesteps (tr ! k) = ro_timesteps ((st0 # tr) ! k) @ [real (k + 2)]"
    by auto
  then show ?case using Suc by simp
qed

lemma trace_done_step:
  assumes ok: "evaluator_ok P" and inv0: "rollout_inv P st0"
    and stp: "\<forall>i < length tr. rollout_inv P (tr ! i) \<and>
                  eval_step P (ts ! i) ((st0 # tr) ! i) = Inr (tr ! i)"
    and k: "k < length tr" and e: "e < ev_num_eval_episodes P"
  shows "episode_done ((st0 # tr) ! Suc k) e =
           (episode_done ((st0 # tr) ! k) e \<or> ts_last (step_time_steps P ((st0 # tr) ! k) ! e))"
    and "ro_episode_return ((st0 # tr) ! Suc k) ! e =
           ro_episode_return ((st0 # tr) ! k) ! e +
           (if episode_done ((st0 # tr) ! Suc k) e then 0
            else ts_reward (step_time_steps P ((st0 # tr) ! k) ! e))"
    and "ro_episode_length ((st0 # tr) ! Suc k) ! e =
           ro_episode_length ((st0 # tr) ! k) ! e +
           (if episode_done ((st0 # tr) ! Suc k) e then 0 else 1)"
proof -
  have invk: "rollout_inv P ((st0 # tr) ! k)"
    using inv0 stp k by (cases k) simp_all
  from eval_step_ok [OF ok invk, of "ts ! k"] stp k
  have r: "\<forall>e < ev_num_eval_episodes P.
              episode_done (tr ! k) e =
                (episode_done ((st0 # tr) ! k) e \<or> ts_last (step_time_steps P ((st0 # tr) ! k) ! e)) \<and>
              ro_episode_return (tr ! k) ! e =
                ro_episode_return ((st0 # tr) ! k) ! e +
                (if episode_done (tr ! k) e then 0 else ts_reward (step_time_steps P ((st0 # tr) ! k) ! e)) \<and>
              ro_episode_length (tr ! k) ! e =
                ro_episode_length ((st0 # tr) ! k) ! e + (if episode_done (tr ! k) e then 0 else 1)"
    by auto
  show "episode_done ((st0 # tr) ! Suc k) e =
           (episode_done ((st0 # tr) ! k) e \<or> ts_last (step_time_steps P ((st0 # tr) ! k) ! e))"
    using r e by simp
  show "ro_episode_return ((st0 # tr) ! Suc k) ! e =
           ro_episode_return ((st0 # tr) ! k) ! e +
           (if episode_done ((st0 # tr) ! Suc k) e then 0
            else ts_reward (step_time_steps P ((st0 # tr) ! k) ! e))"
    using r e by simp
  show "ro_episode_length ((st0 # tr) ! Suc k) ! e =
           ro_episode_length ((st0 # tr) ! k) ! e +
           (if episode_done ((st0 # tr) ! Suc k) e then 0 else 1)"
    using r e by simp
qed

lemma trace_done_sticky:
  assumes ok: "evaluator_ok P" and inv0: "rollout_inv P st0"
    and stp: "\<forall>i < length tr. rollout_inv P (tr ! i) \<and>
                  eval_step P (ts ! i) ((st0 # tr) ! i) = Inr (tr ! i)"
    and e: "e < ev_num_eval_episodes P"
    and d: "episode_done ((st0 # tr) ! i) e"
  shows "i \<le> j \<Longrightarrow> j \<le> length tr \<Longrightarrow> episode_done ((st0 # tr) ! j) e"
proof (induction j)
  case 0
  then show ?case using d by simp
next
  case (Suc j)
  show ?case
  proof (cases "i = Suc j")
    case True
    then show ?thesis using d by simp
  next
    case False
    then have "i \<le> j" "j \<le> length tr" "j < length tr" using Suc.prems by simp_all
    then have "episode_done ((st0 # tr) ! j) e" using Suc.IH by simp
    then show ?thesis
      using trace_done_step(1) [OF ok inv0 stp \<open>j < length tr\<close> e] by simp
  qed
qed

lemma all_done_episodes:
  assumes "rollout_inv P st"
  shows "all_done st \<longleftrightarrow> (\<forall>e < ev_num_eval_episodes P. episode_done st e)"
  using assms
  by (auto simp: all_done_def episode_done_def rollout_inv_def all_set_conv_all_nth)

lemma eval_run:
  assumes ok: "evaluator_ok P"
  shows "\<exists>st0 tr. eval_init P target_rew = Inr st0 \<and> rollout_inv P st0 \<and>
           ro_timesteps st0 = [1] \<and>
           eval_trace P [0 ..< ev_max_ep_len P] st0 = Inr tr \<and>
           eval_final P target_rew = Inr (last (st0 # tr)) \<and>
           length tr \<le> ev_max_ep_len P \<and>
           (\<forall>i < length tr. rollout_inv P (tr ! i) \<and>
               eval_step P ([0 ..< ev_max_ep_len P] ! i) ((st0 # tr) ! i) = Inr (tr ! i)) \<and>
           (\<forall>i < length tr. rollout_inv P (tr ! i) \<and>
               eval_step P i ((st0 # tr) ! i) = Inr (tr ! i)) \<and>
           (\<forall>i. i + 1 < length tr \<longrightarrow> \<not> all_done (tr ! i)) \<and>
           (length tr < ev_max_ep_len P \<longrightarrow> tr \<noteq> [] \<and> all_done (last tr))"
proof -
  from eval_init_ok [OF ok, of target_rew]
  obtain st0 where i0: "eval_init P target_rew = Inr st0" and inv0: "rollout_inv P st0"
    and t0: "ro_timesteps st0 = [1]" by blast
  from eval_trace_ok [OF ok inv0, of "[0 ..< ev_max_ep_len P]"]
  obtain tr where tr: "eval_trace P [0 ..< ev_max_ep_len P] st0 = Inr tr"
    and len: "length tr \<le> ev_max_ep_len P"
    and stp: "\<forall>i < length tr. rollout_inv P (tr ! i) \<and>
               eval_step P ([0 ..< ev_max_ep_len P] ! i) ((st0 # tr) ! i) = Inr (tr ! i)"
    and nd: "\<forall>i. i + 1 < length tr \<longrightarrow> \<not> all_done (tr ! i)"
    and fin: "length tr < ev_max_ep_len P \<longrightarrow> tr \<noteq> [] \<and> all_done (last tr)"
    by auto
  have stp': "\<forall>i < length tr. rollout_inv P (tr ! i) \<and>
               eval_step P i ((st0 # tr) ! i) = Inr (tr ! i)"
    using stp len by auto
  have "eval_final P target_rew = Inr (last (st0 # tr))"
    unfolding eval_final_def i0 and_then_simps eval_loop_trace tr by simp
  then show ?thesis using i0 inv0 t0 tr len stp stp' nd fin by blast
qed

text \<open>
  Claim C1. In the parallel evaluator an episode that was not done before a step has the
  realized reward of that step added to its return and its length incremented, also on the
  step on which it becomes done; so a single episode whose third step is terminal, with
  \<open>max_ep_len = 5\<close>, has length 3. The code does not do this: \<open>tf.where\<close> tests the done
  flag after the update of this step, so the terminal step is not accumulated. With one
  episode whose third step is terminal and rewards of 1, three rewards are realized, and the
  evaluator returns length 2 and return 2.
\<close>

theorem terminal_step_not_accumulated:
  "eval_final (example_evaluator 1) 3600 = Inr example_final \<and>
   ro_rewards example_final = [[1, 1, 1]] \<and>
   ro_dones example_final = [[True]] \<and>
   ro_episode_length example_final = [2] \<and>
   ro_episode_return example_final = [2] \<and>
   eval_ep_parallel (example_evaluator 1) 3600 =
     Inr \<lparr>return_mean = 2, return_std = 0, length_mean = 2, length_std = 0\<rparr>"
  using example_eval_final example_eval_ep_parallel by (simp add: example_final_def)

text \<open>
  Claim C7. In every evaluation run (at least one episode, a mode other than \<open>noise\<close>) the
  done flag of an episode, once true, is true after every later step: after a step it is
  the flag before the step or the terminal signal of the step. The loop runs at most
  \<open>max_ep_len\<close> iterations, continues only while some episode is not done, and when it
  stops before \<open>max_ep_len\<close> iterations all episodes are done.
\<close>

theorem done_sticky_and_early_exit:
  assumes "evaluator_ok P"
  shows "\<exists>st0 tr. eval_init P target_rew = Inr st0 \<and>
           eval_trace P [0 ..< ev_max_ep_len P] st0 = Inr tr \<and>
           eval_final P target_rew = Inr (last (st0 # tr)) \<and>
           length tr \<le> ev_max_ep_len P \<and>
           (\<forall>e < ev_num_eval_episodes P. \<forall>i j.
              i \<le> j \<longrightarrow> j \<le> length tr \<longrightarrow> episode_done ((st0 # tr) ! i) e \<longrightarrow>
              episode_done ((st0 # tr) ! j) e) \<and>
           (\<forall>e < ev_num_eval_episodes P. \<forall>k < length tr.
              episode_done ((st0 # tr) ! Suc k) e =
                (episode_done ((st0 # tr) ! k) e \<or>
                 ts_last (step_time_steps P ((st0 # tr) ! k) ! e))) \<and>
           (\<forall>k < length tr.
              all_done (tr ! k) = (\<forall>e < ev_num_eval_episodes P. episode_done (tr ! k) e)) \<and>
           (\<forall>k. k + 1 < length tr \<longrightarrow> \<not> all_done (tr ! k)) \<and>
           (length tr < ev_max_ep_len P \<longrightarrow> tr \<noteq> [] \<and> all_done (last tr))"
proof -
  from eval_run [OF assms, of target_rew]
  obtain st0 tr where i0: "eval_init P target_rew = Inr st0" and inv0: "rollout_inv P st0"
    and tr: "eval_trace P [0 ..< ev_max_ep_len P] st0 = Inr tr"
    and fin: "eval_final P target_rew = Inr (last (st0 # tr))"
    and len: "length tr \<le> ev_max_ep_len P"
    and stp: "\<forall>i < length tr. rollout_inv P (tr ! i) \<and>
               eval_step P ([0 ..< ev_max_ep_len P] ! i) ((st0 # tr) ! i) = Inr (tr ! i)"
    and nd: "\<forall>i. i + 1 < length tr \<longrightarrow> \<not> all_done (tr ! i)"
    and ex: "length tr < ev_max_ep_len P \<longrightarrow> tr \<noteq> [] \<and> all_done (last tr)"
    by blast
  have sticky: "\<forall>e < ev_num_eval_episodes P. \<forall>i j.
              i \<le> j \<longrightarrow> j \<le> length tr \<longrightarrow> episode_done ((st0 # tr) ! i) e \<longrightarrow>
              episode_done ((st0 # tr) ! j) e"
    using trace_done_sticky [OF assms inv0 stp] by blast
  have upd: "\<forall>e < ev_num_eval_episodes P. \<forall>k < length tr.
              episode_done ((st0 # tr) ! Suc k) e =
                (episode_done ((st0 # tr) ! k) e \<or>
                 ts_last (step_time_steps P ((st0 # tr) ! k) ! e))"
    using trace_done_step(1) [OF assms inv0 stp] by blast
  have ad: "\<forall>k < length tr.
              all_done (tr ! k) = (\<forall>e < ev_num_eval_episodes P. episode_done (tr ! k) e)"
    using stp all_done_episodes by blast
  show ?thesis using i0 tr fin len sticky upd ad nd ex by blast
qed

theorem done_sticky_and_early_exit_witness:
  "evaluator_ok (example_evaluator 2) \<and>
   (\<exists>st0 tr. eval_init (example_evaluator 2) 3600 = Inr st0 \<and>
        eval_trace (example_evaluator 2) [0 ..< 5] st0 = Inr tr \<and>
        st0 = example_init2 \<and> tr = example_trace2 \<and>
        length tr = 4 \<and> length tr < ev_max_ep_len (example_evaluator 2) \<and>
        \<not> episode_done ((st0 # tr) ! 2) 0 \<and>
        episode_done ((st0 # tr) ! 3) 0 \<and>
        \<not> ts_last (step_time_steps (example_evaluator 2) ((st0 # tr) ! 3) ! 0) \<and>
        episode_done ((st0 # tr) ! 4) 0 \<and>
        \<not> episode_done ((st0 # tr) ! 3) 1 \<and>
        \<not> all_done (tr ! 2) \<and>
        all_done (last tr))"
proof -
  have ok: "evaluator_ok (example_evaluator 2)" by (rule example_evaluator_ok) simp
  have m: "ev_max_ep_len (example_evaluator 2) = 5"
    and n: "ev_num_eval_episodes (example_evaluator 2) = 2"
    by (simp_all add: example_evaluator_def)
  from done_sticky_and_early_exit [OF ok, of 3600]
  obtain st0 tr where i0: "eval_init (example_evaluator 2) 3600 = Inr st0"
    and tr: "eval_trace (example_evaluator 2) [0 ..< ev_max_ep_len (example_evaluator 2)] st0 = Inr tr"
    and sticky: "\<forall>e < ev_num_eval_episodes (example_evaluator 2). \<forall>i j.
              i \<le> j \<longrightarrow> j \<le> length tr \<longrightarrow> episode_done ((st0 # tr) ! i) e \<longrightarrow>
              episode_done ((st0 # tr) ! j) e"
    and nd: "\<forall>k. k + 1 < length tr \<longrightarrow> \<not> all_done (tr ! k)"
    and ex: "length tr < ev_max_ep_len (example_evaluator 2) \<longrightarrow> tr \<noteq> [] \<and> all_done (last tr)"
    by blast
  have s0: "st0 = example_init2" using i0 example_eval_init2 by simp
  have t: "tr = example_trace2" using tr example_eval_trace2 unfolding m s0 by simp
  have len: "length tr = 4" unfolding t by (simp add: example_trace2_def)
  have d2: "\<not> episode_done ((st0 # tr) ! 2) 0"
    unfolding t s0 by (simp add: example_trace2_def episode_done_def)
  have d3: "episode_done ((st0 # tr) ! 3) 0"
    unfolding t s0 by (simp add: example_trace2_def episode_done_def)
  have e3: "\<not> episode_done ((st0 # tr) ! 3) 1"
    unfolding t s0 by (simp add: example_trace2_def episode_done_def)
  have l3: "\<not> ts_last (step_time_steps (example_evaluator 2) ((st0 # tr) ! 3) ! 0)"
    unfolding t s0
    by (simp add: example_trace2_def step_time_steps_def example_evaluator_def zero_policy_def
        counting_step_def counting_reset_def replicate_2 Let_def)
  have d4: "episode_done ((st0 # tr) ! 4) 0"
    using sticky [rule_format, of 0 3 4] d3 len unfolding n by simp
  have a2: "\<not> all_done (tr ! 2)" using nd [rule_format, of 2] len by simp
  have a4: "all_done (last tr)" using ex len unfolding m by simp
  show ?thesis
    using ok i0 tr s0 t len d2 d3 e3 l3 d4 a2 a4 unfolding m by simp
qed

text \<open>
  Claim C8. The timestep sequence is one sequence for all episodes: it has no episode
  index, and the one call of the model in an iteration, which returns the actions of all
  episodes, receives it as it is. It starts as \<open>[1]\<close>, every iteration appends the next
  index, and after \<open>k\<close> completed iterations it is \<open>[1, 2, ..., k + 1]\<close>: the actions recorded
  in iteration \<open>k\<close> (counted from 0) are the answer of the model to the sequence
  \<open>[1, 2, ..., k + 1]\<close>.
\<close>

theorem timesteps_shared_sequence:
  assumes "evaluator_ok P"
  shows "\<exists>st0 tr. eval_init P target_rew = Inr st0 \<and>
           eval_trace P [0 ..< ev_max_ep_len P] st0 = Inr tr \<and>
           eval_final P target_rew = Inr (last (st0 # tr)) \<and>
           ro_timesteps st0 = [1] \<and>
           (\<forall>k \<le> length tr. ro_timesteps ((st0 # tr) ! k) = map real [1 ..< k + 2]) \<and>
           (\<forall>k < length tr.
              ro_timesteps (tr ! k) = ro_timesteps ((st0 # tr) ! k) @ [real (k + 2)] \<and>
              map last (ro_actions (tr ! k)) =
                model_answer P ((st0 # tr) ! k) (map real [1 ..< k + 2]) \<and>
              length (model_answer P ((st0 # tr) ! k) (map real [1 ..< k + 2])) =
                ev_num_eval_episodes P)"
proof -
  from eval_run [OF assms, of target_rew]
  obtain st0 tr where i0: "eval_init P target_rew = Inr st0" and inv0: "rollout_inv P st0"
    and t0: "ro_timesteps st0 = [1]"
    and tr: "eval_trace P [0 ..< ev_max_ep_len P] st0 = Inr tr"
    and fin: "eval_final P target_rew = Inr (last (st0 # tr))"
    and stp: "\<forall>i < length tr. rollout_inv P (tr ! i) \<and>
               eval_step P i ((st0 # tr) ! i) = Inr (tr ! i)"
    by blast
  have ts: "\<forall>k \<le> length tr. ro_timesteps ((st0 # tr) ! k) = map real [1 ..< k + 2]"
    using trace_timesteps [OF assms inv0 t0 stp] by blast
  have call: "ro_timesteps (tr ! k) = ro_timesteps ((st0 # tr) ! k) @ [real (k + 2)] \<and>
              map last (ro_actions (tr ! k)) =
                model_answer P ((st0 # tr) ! k) (map real [1 ..< k + 2]) \<and>
              length (model_answer P ((st0 # tr) ! k) (map real [1 ..< k + 2])) =
                ev_num_eval_episodes P"
    if k: "k < length tr" for k
  proof -
    have invk: "rollout_inv P ((st0 # tr) ! k)"
      using inv0 stp k by (cases k) simp_all
    have step: "eval_step P k ((st0 # tr) ! k) = Inr (tr ! k)" using stp k by simp
    from eval_step_ok [OF assms invk, of k] step
    have a: "ro_timesteps (tr ! k) = ro_timesteps ((st0 # tr) ! k) @ [real (k + 2)]"
      and b: "map last (ro_actions (tr ! k)) =
                model_answer P ((st0 # tr) ! k) (ro_timesteps ((st0 # tr) ! k))"
      by auto
    have c: "ro_timesteps ((st0 # tr) ! k) = map real [1 ..< k + 2]" using ts k by simp
    have d: "length (model_answer P ((st0 # tr) ! k) (map real [1 ..< k + 2])) =
               ev_num_eval_episodes P"
      using assms by (simp add: evaluator_ok_def model_answer_def)
    show ?thesis using a b d unfolding c by simp
  qed
  show ?thesis using i0 tr fin t0 ts call by blast
qed

theorem timesteps_shared_sequence_witness:
  "evaluator_ok (clock_evaluator 2) \<and>
   (\<exists>st0 tr. eval_final (clock_evaluator 2) 3600 = Inr (last (st0 # tr)) \<and>
        last (st0 # tr) = clock_final \<and> length tr = 4 \<and>
        ro_timesteps st0 = [1] \<and>
        ro_timesteps (last (st0 # tr)) = [1, 2, 3, 4, 5] \<and>
        model_answer (clock_evaluator 2) ((st0 # tr) ! 3) [1, 2, 3, 4] = [[10], [10]] \<and>
        map last (ro_actions (tr ! 3)) = [[10], [10]] \<and>
        ro_actions (last (st0 # tr)) = [[[1], [3], [6], [10]], [[1], [3], [6], [10]]])"
proof -
  have ok: "evaluator_ok (clock_evaluator 2)" by (rule clock_evaluator_ok) simp
  from timesteps_shared_sequence [OF ok, of 3600]
  obtain st0 tr where fin: "eval_final (clock_evaluator 2) 3600 = Inr (last (st0 # tr))"
    and t0: "ro_timesteps st0 = [1]"
    and ts: "\<forall>k \<le> length tr. ro_timesteps ((st0 # tr) ! k) = map real [1 ..< k + 2]"
    and call: "\<forall>k < length tr. map last (ro_actions (tr ! k)) =
                model_answer (clock_evaluator 2) ((st0 # tr) ! k) (map real [1 ..< k + 2])"
    by blast
  have l: "last (st0 # tr) = clock_final" using fin clock_eval_final by simp
  have nth: "(st0 # tr) ! length tr = last (st0 # tr)"
    using last_conv_nth [of "st0 # tr"] by simp
  have e1: "ro_timesteps (last (st0 # tr)) = map real [1 ..< length tr + 2]"
    using ts [rule_format, OF order_refl] unfolding nth .
  have "length (ro_timesteps (last (st0 # tr))) = length tr + 1"
    unfolding e1 length_map length_upt by simp
  then have len: "length tr = 4" unfolding l by (simp add: clock_final_def)
  have u: "map real [1 ..< 3 + 2] = [1, 2, 3, 4]"
    by (simp add: upt_conv_Cons eval_nat_numeral)
  have ma: "model_answer (clock_evaluator 2) ((st0 # tr) ! 3) [1, 2, 3, 4] = [[10], [10]]"
    by (simp add: model_answer_def clock_evaluator_def clock_policy_def replicate_2)
  have a3: "map last (ro_actions (tr ! 3)) = [[10], [10]]"
    using call [rule_format, of 3] len unfolding u ma by simp
  have tl: "ro_timesteps (last (st0 # tr)) = [1, 2, 3, 4, 5]"
    unfolding l by (simp add: clock_final_def)
  have al: "ro_actions (last (st0 # tr)) = [[[1], [3], [6], [10]], [[1], [3], [6], [10]]]"
    unfolding l by (simp add: clock_final_def)
  have "eval_final (clock_evaluator 2) 3600 = Inr (last (st0 # tr)) \<and>
        last (st0 # tr) = clock_final \<and> length tr = 4 \<and>
        ro_timesteps st0 = [1] \<and>
        ro_timesteps (last (st0 # tr)) = [1, 2, 3, 4, 5] \<and>
        model_answer (clock_evaluator 2) ((st0 # tr) ! 3) [1, 2, 3, 4] = [[10], [10]] \<and>
        map last (ro_actions (tr ! 3)) = [[10], [10]] \<and>
        ro_actions (last (st0 # tr)) = [[[1], [3], [6], [10]], [[1], [3], [6], [10]]]"
    by (intro conjI) (fact fin l len t0 tl ma a3 al)+
  then show ?thesis using ok by - (rule conjI, assumption, (rule exI)+, assumption)
qed

end
